theory Spec2Isabelle
  imports Main
begin

section \<open>Installation media location (pyanaconda/image.py)\<close>

subsection \<open>Exceptions and the error-recovery policy\<close>

text \<open>The exceptions the module raises, catches or lets through.\<close>

type_synonym path = string

datatype exn =
    FileNotFoundError
  | NotADirectoryError
  | IsADirectoryError
  | InvalidImageSizeError string path
  | MissingImageError
  | FSError
  | UnicodeDecodeError
  | TimezoneConfigurationError
  | NTPconfigError
  | OtherError

text \<open>
  \<^verbatim>\<open>errorHandler.cb(exn)\<close> answers \<^verbatim>\<open>ERROR_RAISE\<close> or something else; the
  callers only compare the answer with \<^verbatim>\<open>ERROR_RAISE\<close>.
\<close>

datatype decision = ERROR_RAISE | ERROR_CONTINUE

type_synonym policy = "exn \<Rightarrow> decision"

subsection \<open>posixpath\<close>

definition sep :: char where
  "sep = CHR ''/''"

definition join :: "path \<Rightarrow> path \<Rightarrow> path" where
  "join a b =
     (if b \<noteq> [] \<and> hd b = sep then b
      else if a = [] \<or> last a = sep then a @ b
      else a @ [sep] @ b)"

definition basename :: "path \<Rightarrow> path" where
  "basename p = rev (takeWhile (\<lambda>c. c \<noteq> sep) (rev p))"

definition dirname :: "path \<Rightarrow> path" where
  "dirname p =
     (let head = rev (dropWhile (\<lambda>c. c \<noteq> sep) (rev p))
      in if head \<noteq> [] \<and> head \<noteq> replicate (length head) sep
         then rev (dropWhile (\<lambda>c. c = sep) (rev head))
         else head)"

definition endswith :: "string \<Rightarrow> string \<Rightarrow> bool" where
  "endswith s suf = (length suf \<le> length s \<and> drop (length s - length suf) s = suf)"

subsection \<open>The file system, the images and the mount table\<close>

text \<open>
  What \<^verbatim>\<open>os.stat\<close>, \<^verbatim>\<open>os.path.isfile\<close> and \<^verbatim>\<open>os.listdir\<close> see of a path: nothing
  (\<^verbatim>\<open>os.stat\<close> raises), or a node with its kind, its size and, for a directory, its
  listing.
\<close>

datatype kind = Regular | Directory | Special

record node =
  kind :: kind
  st_size :: nat
  entries :: "string list"

text \<open>
  What is visible under a mount point once an image is mounted there: the state of the
  \<^verbatim>\<open>.discinfo\<close> file as \<^verbatim>\<open>os.access\<close> and \<^verbatim>\<open>DiscInfo.load\<close> find it, and the
  base repository metadata of the install tree (\<open>None\<close> when there is none, otherwise
  the answer of \<^verbatim>\<open>is_valid()\<close>).
\<close>

datatype discinfo = Unreadable | Malformed | Loaded string

record tree =
  discinfo :: discinfo
  base_repo :: "bool option"

text \<open>
  The collaborators of \<^verbatim>\<open>findFirstIsoImage\<close> that are not part of the module are
  parameters: \<^verbatim>\<open>isys.isIsoImage\<close>, what \<^verbatim>\<open>blivet.util.mount\<close> of a source on a mount
  point does, the tree an image holds, and the tree the scratch mount point holds when
  nothing is mounted on it. \<^verbatim>\<open>blivet.util.mount\<close> runs \<^verbatim>\<open>mount(8)\<close> and returns its
  exit status, 0 when the source is mounted; it raises \<^verbatim>\<open>OSError\<close> only when the
  command cannot be run. A status other than 0 is returned, not raised.
\<close>

datatype mount_result = Returns nat | RaisesOSError

record env =
  fs :: "path \<Rightarrow> node option"
  isIsoImage :: "path \<Rightarrow> bool"
  mount_cmd :: "path \<Rightarrow> path \<Rightarrow> mount_result"
  image_tree :: "path \<Rightarrow> tree"
  unmounted_tree :: tree

definition mount_ok :: "env \<Rightarrow> path \<Rightarrow> path \<Rightarrow> bool" where
  "mount_ok e what mp = (mount_cmd e what mp = Returns 0)"

text \<open>
  The state the functions change: for every mount point the stack of sources mounted
  there (the newest first), the exceptions handed to the error-recovery policy so far,
  the scratch directories made by \<^verbatim>\<open>tempfile.mkdtemp\<close> that still exist, and how
  many it has made. A mount on a mount point that is in use covers what is there, and
  unmounting uncovers it. \<^verbatim>\<open>blivet.util.umount\<close>, \<^verbatim>\<open>format.unmount\<close> and
  \<^verbatim>\<open>os.rmdir\<close> are taken to succeed: they pop the stack and remove the directory.
\<close>

record state =
  mounts :: "path \<Rightarrow> path list"
  cb_calls :: "exn list"
  tmpdirs :: "path list"
  mkdtemp_count :: nat

definition mount :: "path \<Rightarrow> path \<Rightarrow> state \<Rightarrow> state" where
  "mount what mp st = st\<lparr>mounts := (mounts st)(mp := what # mounts st mp)\<rparr>"

definition umount :: "path \<Rightarrow> state \<Rightarrow> state" where
  "umount mp st = st\<lparr>mounts := (mounts st)(mp := tl (mounts st mp))\<rparr>"

definition call_cb :: "exn \<Rightarrow> state \<Rightarrow> state" where
  "call_cb e st = st\<lparr>cb_calls := cb_calls st @ [e]\<rparr>"

definition init_state :: state where
  "init_state = \<lparr>mounts = (\<lambda>_. []), cb_calls = [], tmpdirs = [], mkdtemp_count = 0\<rparr>"

subsection \<open>findFirstIsoImage\<close>

definition mount_path :: path where
  "mount_path = ''/mnt/install/cdimage''"

text \<open>\<^verbatim>\<open>_check_repodata\<close>: no base repository metadata is a plain "no".\<close>

definition check_repodata :: "tree \<Rightarrow> bool" where
  "check_repodata t = (case base_repo t of None \<Rightarrow> False | Some valid \<Rightarrow> valid)"

text \<open>
  The state after a call of \<^verbatim>\<open>blivet.util.mount\<close> that returned the status \<open>rc\<close>,
  and the tree then seen under the scratch mount point: that of the source mounted last,
  or the directory's own.
\<close>

definition mounted :: "nat \<Rightarrow> path \<Rightarrow> path \<Rightarrow> state \<Rightarrow> state" where
  "mounted rc what mp st = (if rc = 0 then mount what mp st else st)"

definition visible_tree :: "env \<Rightarrow> state \<Rightarrow> tree" where
  "visible_tree e st =
     (case mounts st mount_path of [] \<Rightarrow> unmounted_tree e | src # _ \<Rightarrow> image_tree e src)"

text \<open>
  The mount of a source on the scratch mount point does what its caller takes it to do:
  it mounts the source or raises.
\<close>

definition mount_status_ok :: "env \<Rightarrow> path \<Rightarrow> bool" where
  "mount_status_ok e what =
     (case mount_cmd e what mount_path of Returns rc \<Rightarrow> rc = 0 | RaisesOSError \<Rightarrow> True)"

text \<open>
  One pass through the body of the \<^verbatim>\<open>for fn in files\<close> loop. \<open>Continue\<close> is every
  \<^verbatim>\<open>continue\<close> of the source, \<open>Found\<close> the \<^verbatim>\<open>return fn\<close>, \<open>Raised\<close> an exception
  leaving the function. The state is returned in every case. Only an \<^verbatim>\<open>OSError\<close> of
  the mount skips the candidate; after a mount that returned, the checks read what is
  under the mount point.
\<close>

datatype 'a step = Continue | Found 'a | Raised exn

definition check_candidate :: "policy \<Rightarrow> env \<Rightarrow> string \<Rightarrow> path \<Rightarrow> string \<Rightarrow> state \<Rightarrow> string step \<times> state" where
  "check_candidate cb e arch p fn st =
     (let what = join p fn in
      if \<not> isIsoImage e what then (Continue, st)
      else
        (case mount_cmd e what mount_path of
           RaisesOSError \<Rightarrow> (Continue, st)
         | Returns rc \<Rightarrow>
             let st1 = mounted rc what mount_path st;
                 t = visible_tree e st1
             in
             (case discinfo t of
                Unreadable \<Rightarrow> (Continue, umount mount_path st1)
              | Malformed \<Rightarrow> (Continue, st1)
              | Loaded disc_arch \<Rightarrow>
                  if disc_arch \<noteq> arch then (Continue, umount mount_path st1)
                  else if \<not> check_repodata t then (Continue, umount mount_path st1)
                  else
                    (case fs e what of
                       None \<Rightarrow> (Raised FileNotFoundError, st1)
                     | Some nd \<Rightarrow>
                         if st_size nd mod 2048 \<noteq> 0 then
                           (let exn = InvalidImageSizeError
                                        ''size is not a multiple of 2048 bytes'' what;
                                st2 = call_cb exn st1
                            in if cb exn = ERROR_RAISE then (Raised exn, st2)
                               else (Found fn, umount mount_path st2))
                         else (Found fn, umount mount_path st1)))))"

fun scan :: "policy \<Rightarrow> env \<Rightarrow> string \<Rightarrow> path \<Rightarrow> string list \<Rightarrow> state \<Rightarrow> (exn + string option) \<times> state" where
  "scan cb e arch p [] st = (Inr None, st)"
| "scan cb e arch p (fn # fns) st =
     (case check_candidate cb e arch p fn st of
        (Continue, st') \<Rightarrow> scan cb e arch p fns st'
      | (Found f, st') \<Rightarrow> (Inr (Some f), st')
      | (Raised x, st') \<Rightarrow> (Inl x, st'))"

text \<open>
  The function itself: \<^verbatim>\<open>os.stat\<close> failing gives \<^verbatim>\<open>None\<close>; a regular file named
  \<^verbatim>\<open>*.iso\<close> is the only candidate, in its directory; anything else is listed with
  \<^verbatim>\<open>os.listdir\<close>, which raises \<^verbatim>\<open>NotADirectoryError\<close> on what is not a directory.
  \<open>candidate_files\<close> is the pair of \<^verbatim>\<open>path\<close> and \<^verbatim>\<open>files\<close> the loop then runs on.
\<close>

definition listdir :: "env \<Rightarrow> path \<Rightarrow> exn + string list" where
  "listdir e p =
     (case fs e p of
        None \<Rightarrow> Inl FileNotFoundError
      | Some nd \<Rightarrow> if kind nd = Directory then Inr (entries nd) else Inl NotADirectoryError)"

definition isfile :: "env \<Rightarrow> path \<Rightarrow> bool" where
  "isfile e p = (case fs e p of None \<Rightarrow> False | Some nd \<Rightarrow> kind nd = Regular)"

definition candidate_files :: "env \<Rightarrow> path \<Rightarrow> exn + path \<times> string list" where
  "candidate_files e p =
     (if isfile e p \<and> endswith p ''.iso'' then Inr (dirname p, [basename p])
      else
        (case listdir e p of
           Inl x \<Rightarrow> Inl x
         | Inr files \<Rightarrow> Inr (p, files)))"

definition findFirstIsoImage :: "policy \<Rightarrow> env \<Rightarrow> string \<Rightarrow> path \<Rightarrow> state \<Rightarrow> (exn + string option) \<times> state" where
  "findFirstIsoImage cb e arch p st =
     (case fs e p of
        None \<Rightarrow> (Inr None, st)
      | Some nd \<Rightarrow>
          (case candidate_files e p of
             Inl x \<Rightarrow> (Inl x, st)
           | Inr (dir, files) \<Rightarrow> scan cb e arch dir files st))"

subsection \<open>mountImage\<close>

text \<open>
  \<^verbatim>\<open>str.split(sep)\<close> and \<^verbatim>\<open>os.path.normpath\<close>, which \<^verbatim>\<open>mountImage\<close> applies to
  \<^verbatim>\<open>"%s/%s" % (isodir, image)\<close>.
\<close>

fun split_on :: "'a \<Rightarrow> 'a list \<Rightarrow> 'a list list" where
  "split_on d [] = [[]]"
| "split_on d (c # cs) =
     (if c = d then [] # split_on d cs
      else (case split_on d cs of [] \<Rightarrow> [[c]] | l # ls \<Rightarrow> (c # l) # ls))"

fun norm_comps :: "bool \<Rightarrow> string list \<Rightarrow> string list \<Rightarrow> string list" where
  "norm_comps initial_slashes new_comps [] = new_comps"
| "norm_comps initial_slashes new_comps (cmp # comps) =
     (if cmp = [] \<or> cmp = ''.'' then norm_comps initial_slashes new_comps comps
      else if cmp \<noteq> ''..'' \<or> (\<not> initial_slashes \<and> new_comps = [])
              \<or> (new_comps \<noteq> [] \<and> last new_comps = ''..'')
      then norm_comps initial_slashes (new_comps @ [cmp]) comps
      else if new_comps \<noteq> [] then norm_comps initial_slashes (butlast new_comps) comps
      else norm_comps initial_slashes new_comps comps)"

fun sep_join :: "string list \<Rightarrow> string" where
  "sep_join [] = []"
| "sep_join [c] = c"
| "sep_join (c # cs) = c @ [sep] @ sep_join cs"

definition normpath :: "path \<Rightarrow> path" where
  "normpath p =
     (if p = [] then ''.''
      else
        let initial_slashes =
              (if take 1 p \<noteq> [sep] then 0
               else if take 2 p = [sep, sep] \<and> take 3 p \<noteq> [sep, sep, sep] then 2
               else (1::nat));
            comps = norm_comps (initial_slashes \<noteq> 0) [] (split_on sep p);
            q = replicate initial_slashes sep @ sep_join comps
        in if q = [] then ''.'' else q)"

text \<open>
  One pass through the body of \<^verbatim>\<open>while True\<close>: \<open>Done\<close> is the \<^verbatim>\<open>break\<close> after a
  mount call that did not raise, \<open>Retry\<close> is a \<^verbatim>\<open>continue\<close>, \<open>Abort\<close> an exception
  leaving the function. The status the mount call returns is not looked at.
\<close>

datatype iter = Done | Retry | Abort exn

definition ask_policy :: "policy \<Rightarrow> state \<Rightarrow> iter \<times> state" where
  "ask_policy cb st =
     (let exn = MissingImageError; st' = call_cb exn st
      in if cb exn = ERROR_RAISE then (Abort exn, st') else (Retry, st'))"

definition attempt_mount :: "policy \<Rightarrow> env \<Rightarrow> path \<Rightarrow> path \<Rightarrow> state \<Rightarrow> iter \<times> state" where
  "attempt_mount cb e img tree st =
     (case mount_cmd e img tree of
        RaisesOSError \<Rightarrow> ask_policy cb st
      | Returns rc \<Rightarrow> (Done, mounted rc img tree st))"

definition mountImage_iter :: "policy \<Rightarrow> env \<Rightarrow> string \<Rightarrow> path \<Rightarrow> path \<Rightarrow> state \<Rightarrow> iter \<times> state" where
  "mountImage_iter cb e arch isodir tree st =
     (if isfile e isodir then attempt_mount cb e isodir tree st
      else
        (case findFirstIsoImage cb e arch isodir st of
           (Inl x, st') \<Rightarrow> (Abort x, st')
         | (Inr None, st') \<Rightarrow> ask_policy cb st'
         | (Inr (Some img), st') \<Rightarrow>
             attempt_mount cb e (normpath (isodir @ [sep] @ img)) tree st'))"

text \<open>
  The loop. Between two passes the operator may change the media and answer the policy's
  question differently, so the \<open>n\<close>-th pass runs in the world \<open>W n\<close> with the policy
  \<open>P n\<close>. The loop may run for ever: not returning is the value \<open>None\<close>.
\<close>

partial_function (option) mountImage_loop ::
  "(nat \<Rightarrow> policy) \<Rightarrow> (nat \<Rightarrow> env) \<Rightarrow> string \<Rightarrow> path \<Rightarrow> path \<Rightarrow> nat \<Rightarrow> state \<Rightarrow> ((exn + unit) \<times> state) option" where
  "mountImage_loop P W arch isodir tree n st =
     (case mountImage_iter (P n) (W n) arch isodir tree st of
        (Done, st') \<Rightarrow> Some (Inr (), st')
      | (Abort x, st') \<Rightarrow> Some (Inl x, st')
      | (Retry, st') \<Rightarrow> mountImage_loop P W arch isodir tree (Suc n) st')"

definition mountImage ::
  "(nat \<Rightarrow> policy) \<Rightarrow> (nat \<Rightarrow> env) \<Rightarrow> string \<Rightarrow> path \<Rightarrow> path \<Rightarrow> state \<Rightarrow> ((exn + unit) \<times> state) option" where
  "mountImage P W arch isodir tree st = mountImage_loop P W arch isodir tree 0 st"

text \<open>
  The state at the start of pass \<open>n\<close> when every pass before it has ended in a
  \<^verbatim>\<open>continue\<close>, and what pass \<open>n\<close> then does.
\<close>

fun state_at :: "(nat \<Rightarrow> policy) \<Rightarrow> (nat \<Rightarrow> env) \<Rightarrow> string \<Rightarrow> path \<Rightarrow> path \<Rightarrow> state \<Rightarrow> nat \<Rightarrow> state" where
  "state_at P W arch isodir tree st 0 = st"
| "state_at P W arch isodir tree st (Suc n) =
     snd (mountImage_iter (P n) (W n) arch isodir tree (state_at P W arch isodir tree st n))"

definition pass :: "(nat \<Rightarrow> policy) \<Rightarrow> (nat \<Rightarrow> env) \<Rightarrow> string \<Rightarrow> path \<Rightarrow> path \<Rightarrow> state \<Rightarrow> nat \<Rightarrow> iter \<times> state" where
  "pass P W arch isodir tree st n =
     mountImage_iter (P n) (W n) arch isodir tree (state_at P W arch isodir tree st n)"

text \<open>
  The loop ends at pass \<open>m\<close> with the result \<open>r\<close>: every pass before it was a
  \<^verbatim>\<open>continue\<close>, and pass \<open>m\<close> left the loop with \<open>r\<close>.
\<close>

definition ends_at ::
  "(nat \<Rightarrow> policy) \<Rightarrow> (nat \<Rightarrow> env) \<Rightarrow> string \<Rightarrow> path \<Rightarrow> path \<Rightarrow> state \<Rightarrow> nat \<Rightarrow> (exn + unit) \<times> state \<Rightarrow> bool" where
  "ends_at P W arch isodir tree st m r =
     ((\<forall>i<m. fst (pass P W arch isodir tree st i) = Retry) \<and>
      (case pass P W arch isodir tree st m of
         (Done, s') \<Rightarrow> r = (Inr (), s')
       | (Abort x, s') \<Rightarrow> r = (Inl x, s')
       | (Retry, s') \<Rightarrow> False))"

subsection \<open>verifyMedia\<close>

text \<open>
  A Python \<^verbatim>\<open>str\<close> read from a file is a sequence of code points. \<open>ascii\<close> gives the
  code points of a literal.
\<close>

type_synonym unicode = "nat list"

definition ascii :: "string \<Rightarrow> unicode" where
  "ascii s = map of_char s"

text \<open>
  What \<^verbatim>\<open>os.access(p, os.R_OK)\<close>, \<^verbatim>\<open>open(p)\<close> and the three \<^verbatim>\<open>readline\<close> calls find
  at a path: nothing readable; something \<^verbatim>\<open>os.access\<close> grants but opening or reading
  raises on (\<^verbatim>\<open>IsADirectoryError\<close> for a directory, \<^verbatim>\<open>UnicodeDecodeError\<close> for bytes
  that do not decode); or a text file with its decoded content, newlines translated to
  \<^verbatim>\<open>\n\<close> as text mode does.
\<close>

datatype marker = NoAccess | Fails exn | Text unicode

type_synonym files = "path \<Rightarrow> marker"

definition NL :: nat where
  "NL = 0x0A"

text \<open>\<^verbatim>\<open>f.readline()\<close>: the line with its newline, and what is left of the file.\<close>

definition readline :: "unicode \<Rightarrow> unicode \<times> unicode" where
  "readline s =
     (case dropWhile (\<lambda>c. c \<noteq> NL) s of
        [] \<Rightarrow> (s, [])
      | c # r \<Rightarrow> (takeWhile (\<lambda>c. c \<noteq> NL) s @ [c], r))"

text \<open>
  \<^verbatim>\<open>str.strip()\<close> removes the characters of \<^verbatim>\<open>str.isspace\<close> at both ends: the
  code points whose category is Zs or whose bidirectional class is WS, B or S.
\<close>

definition isspace :: "nat \<Rightarrow> bool" where
  "isspace c =
     ((0x09 \<le> c \<and> c \<le> 0x0D) \<or> (0x1C \<le> c \<and> c \<le> 0x20) \<or> c = 0x85 \<or> c = 0xA0 \<or>
      c = 0x1680 \<or> (0x2000 \<le> c \<and> c \<le> 0x200A) \<or> c = 0x2028 \<or> c = 0x2029 \<or>
      c = 0x202F \<or> c = 0x205F \<or> c = 0x3000)"

definition strip :: "unicode \<Rightarrow> unicode" where
  "strip s = rev (dropWhile isspace (rev (dropWhile isspace s)))"

definition verifyMedia :: "files \<Rightarrow> unicode \<Rightarrow> path \<Rightarrow> unicode option \<Rightarrow> exn + bool" where
  "verifyMedia f arch tree timestamp =
     (case f (tree @ ''/.discinfo'') of
        NoAccess \<Rightarrow> Inr False
      | Fails x \<Rightarrow> Inl x
      | Text s \<Rightarrow>
          (let (l1, r1) = readline s;
               newStamp = strip l1;
               (l2, r2) = readline r1;
               (l3, r3) = readline r2;
               a = strip l3
           in case timestamp of
                Some ts \<Rightarrow> Inr (newStamp = ts \<and> a = arch)
              | None \<Rightarrow> Inr (a = arch)))"

text \<open>
  The marker file as the format describes it: the lines of the text, without their
  newlines, numbered from 0; a line the file does not have is empty.
\<close>

definition marker_line :: "nat \<Rightarrow> unicode \<Rightarrow> unicode" where
  "marker_line k s = (let ls = split_on NL s in if k < length ls then ls ! k else [])"

subsection \<open>opticalInstallMedia\<close>

text \<open>
  A device as the function sees it: its type, whether it is controllable, and its
  format, with the format's type, whether it has a \<^verbatim>\<open>mount\<close> method, what
  \<^verbatim>\<open>format.mount\<close> raises (\<open>None\<close> when it mounts), and the \<^verbatim>\<open>.discinfo\<close> of the
  media. \<^verbatim>\<open>devicetree.handle_format(None, dev)\<close> may replace the format.
\<close>

record format =
  fmt_type :: string
  has_mount :: bool
  mount_raises :: "exn option"
  fmt_marker :: marker

record device =
  dev_name :: string
  dev_type :: string
  dev_format :: format
  controllable :: bool

record devicetree =
  devices :: "device list"
  handle_format :: "device \<Rightarrow> device"
  mkdtemp_name :: "nat \<Rightarrow> path"

text \<open>
  The candidates are a Python \<^verbatim>\<open>set\<close>: each device once, in an order the language does
  not fix. The loop below takes them as a list; \<open>candidates\<close> is one such order.
\<close>

definition candidates :: "devicetree \<Rightarrow> device list" where
  "candidates dt =
     remdups (filter (\<lambda>d. dev_type d = ''cdrom'') (devices dt)
              @ filter (\<lambda>d. fmt_type (dev_format d) = ''iso9660'') (devices dt))"

definition mkdtemp :: "devicetree \<Rightarrow> state \<Rightarrow> path \<times> state" where
  "mkdtemp dt st =
     (let mp = mkdtemp_name dt (mkdtemp_count st)
      in (mp, st\<lparr>tmpdirs := mp # tmpdirs st, mkdtemp_count := Suc (mkdtemp_count st)\<rparr>))"

definition rmdir :: "path \<Rightarrow> state \<Rightarrow> state" where
  "rmdir mp st = st\<lparr>tmpdirs := remove1 mp (tmpdirs st)\<rparr>"

text \<open>What \<^verbatim>\<open>verifyMedia\<close> finds under the mount point once the device is mounted there.\<close>

definition mounted_files :: "path \<Rightarrow> device \<Rightarrow> files" where
  "mounted_files mp dev =
     (\<lambda>p. if p = mp @ ''/.discinfo'' then fmt_marker (dev_format dev) else NoAccess)"

text \<open>
  One pass through the body of the \<^verbatim>\<open>for dev in set(...)\<close> loop, with both
  \<^verbatim>\<open>finally\<close> clauses run on every way out of their \<^verbatim>\<open>try\<close>.
\<close>

definition try_device :: "devicetree \<Rightarrow> unicode \<Rightarrow> device \<Rightarrow> state \<Rightarrow> device step \<times> state" where
  "try_device dt arch dev0 st =
     (if \<not> controllable dev0 then (Continue, st)
      else
        let dev = handle_format dt dev0 in
        if \<not> has_mount (dev_format dev) then (Continue, st)
        else
          let (mountpoint, st1) = mkdtemp dt st in
          (case mount_raises (dev_format dev) of
             Some x \<Rightarrow>
               if x = FSError then (Continue, rmdir mountpoint st1)
               else (Raised x, rmdir mountpoint st1)
           | None \<Rightarrow>
               let st2 = mount (dev_name dev) mountpoint st1;
                   verdict = verifyMedia (mounted_files mountpoint dev) arch mountpoint None;
                   st3 = rmdir mountpoint (umount mountpoint st2)
               in (case verdict of
                     Inl x \<Rightarrow> (Raised x, st3)
                   | Inr False \<Rightarrow> (Continue, st3)
                   | Inr True \<Rightarrow> (Found dev, st3))))"

fun optical_loop :: "devicetree \<Rightarrow> unicode \<Rightarrow> device list \<Rightarrow> state \<Rightarrow> (exn + device option) \<times> state" where
  "optical_loop dt arch [] st = (Inr None, st)"
| "optical_loop dt arch (dev # devs) st =
     (case try_device dt arch dev st of
        (Continue, st') \<Rightarrow> optical_loop dt arch devs st'
      | (Found d, st') \<Rightarrow> (Inr (Some d), st')
      | (Raised x, st') \<Rightarrow> (Inl x, st'))"

definition opticalInstallMedia :: "devicetree \<Rightarrow> unicode \<Rightarrow> state \<Rightarrow> (exn + device option) \<times> state" where
  "opticalInstallMedia dt arch st = optical_loop dt arch (candidates dt) st"

section \<open>Configuration tasks (tests/unit_tests/.../timezone/test_module_timezone.py)\<close>

datatype level = DEBUG | INFO | WARNING | ERROR

subsection \<open>ConfigureTimezoneTask\<close>

text \<open>
  What the task reads and writes under the sysroot: \<^verbatim>\<open>/etc/localtime\<close> (nothing, a
  symbolic link with its target, or some other file), which files exist under
  \<^verbatim>\<open>/usr/share/zoneinfo\<close>, the lines of \<^verbatim>\<open>/etc/adjtime\<close> when it exists, and the
  records logged to \<^verbatim>\<open>anaconda.modules.timezone.installation\<close>.
\<close>

datatype entry = Symlink path | Plain

record sysroot =
  localtime :: "entry option"
  zoneinfo :: "string \<Rightarrow> bool"
  adjtime :: "string list option"
  tz_log :: "(level \<times> string) list"

text \<open>
  What the task takes from outside the sysroot: which identifiers are time zones at all,
  whether the machine is an s390, and whether \<^verbatim>\<open>os.symlink\<close> and the \<^verbatim>\<open>open\<close> that
  writes \<^verbatim>\<open>/etc/adjtime\<close> raise \<^verbatim>\<open>OSError\<close> (the tests patch both).
\<close>

record tz_env =
  is_valid_timezone :: "string \<Rightarrow> bool"
  is_s390 :: bool
  symlink_raises :: bool
  open_raises :: bool

definition tz_logmsg :: "level \<Rightarrow> string \<Rightarrow> sysroot \<Rightarrow> sysroot" where
  "tz_logmsg l m s = s\<lparr>tz_log := tz_log s @ [(l, m)]\<rparr>"

definition fallback_zone :: string where
  "fallback_zone = ''America/New_York''"

text \<open>
  Modelled from the spec: the correction of the requested zone, the first step of the
  missing \<^verbatim>\<open>ConfigureTimezoneTask.run\<close> (section 4.6). A request is kept when it is a
  time zone identifier; an absent one, and one that is no identifier, give the fallback
  zone. That the test is on the identifier, not on the zone files of the sysroot, is
  what \<^verbatim>\<open>test_timezone_task_timezone_missing\<close> requires (see below).
\<close>

definition is_valid_request :: "tz_env \<Rightarrow> string option \<Rightarrow> bool" where
  "is_valid_request env timezone =
     (case timezone of None \<Rightarrow> False | Some z \<Rightarrow> is_valid_timezone env z)"

definition correct_timezone :: "tz_env \<Rightarrow> string option \<Rightarrow> string" where
  "correct_timezone env timezone =
     (case timezone of
        None \<Rightarrow> fallback_zone
      | Some z \<Rightarrow> if is_valid_timezone env z then z else fallback_zone)"

text \<open>
  Modelled from the spec: \<^verbatim>\<open>ConfigureTimezoneTask.run\<close>
  (\<^verbatim>\<open>pyanaconda/modules/timezone/installation.py\<close>) is missing from the sources; only its
  unit tests are there. The steps and their order are those of section 4.6 of the
  specification: correct the zone, remove \<^verbatim>\<open>/etc/localtime\<close> and link it to the zone
  file, stop on s390, rewrite the last line of \<^verbatim>\<open>/etc/adjtime\<close>, a failed write raising
  \<^verbatim>\<open>TimezoneConfigurationError\<close>. Where the unit tests fix what a step does, the step
  does what the tests require:
  \<^item> \<^verbatim>\<open>test_timezone_task_timezone_missing\<close> ("a valid but missing timezone") removes the
    zone file from the sysroot and requires an \<^verbatim>\<open>ERROR\<close> record, no exception and no
    \<^verbatim>\<open>/etc/localtime\<close>: so the correction asks whether the identifier is a time zone, not
    whether its file exists under the sysroot, and a missing target is logged;
  \<^item> \<^verbatim>\<open>test_timezone_task_symlink_failure\<close> makes \<^verbatim>\<open>os.symlink\<close> raise and requires the
    same: a failed link is logged;
  \<^item> \<^verbatim>\<open>test_timezone_task_success\<close> with no \<^verbatim>\<open>/etc/adjtime\<close> requires the file to be
    made, its last line the flag.
\<close>

definition ConfigureTimezoneTask_run ::
  "tz_env \<Rightarrow> string option \<Rightarrow> bool \<Rightarrow> sysroot \<Rightarrow> (exn + unit) \<times> sysroot" where
  "ConfigureTimezoneTask_run env timezone is_utc s =
     (let tz = correct_timezone env timezone;
          s1 = (if is_valid_request env timezone then s
                else tz_logmsg WARNING ''timezone corrected'' s);
          s2 = s1\<lparr>localtime := None\<rparr>;
          s3 =
            (if \<not> zoneinfo s2 tz then tz_logmsg ERROR ''timezone to be linked does not exist'' s2
             else if symlink_raises env then tz_logmsg ERROR ''error when symlinking timezone'' s2
             else s2\<lparr>localtime := Some (Symlink (''../usr/share/zoneinfo/'' @ tz))\<rparr>)
      in if is_s390 env then (Inr (), s3)
         else
           let flag = (if is_utc then ''UTC'' else ''LOCAL'');
               lines = (case adjtime s3 of None \<Rightarrow> [flag] | Some ls \<Rightarrow> butlast ls @ [flag])
           in if open_raises env then (Inl TimezoneConfigurationError, s3)
              else (Inr (), s3\<lparr>adjtime := Some lines\<rparr>))"

text \<open>
  The unit tests of the task that fix the two failures of the link. The machine the
  tests run on is \<open>host\<close>: its zone files, copied into the sysroot by
  \<^verbatim>\<open>_setup_environment\<close>, and its \<^verbatim>\<open>/etc/adjtime\<close>. \<^verbatim>\<open>assertLogs(level="ERROR")\<close> asks
  for at least one record at that level; a test whose task raised would fail, so each
  test also asks for a normal return.
\<close>

definition host_zones :: "string list" where
  "host_zones = [''America/New_York'', ''Asia/Ulaanbaatar'', ''Europe/Prague'', ''Atlantic/Faroe'']"

definition host :: tz_env where
  "host = \<lparr>is_valid_timezone = (\<lambda>z. z \<in> set host_zones), is_s390 = False,
            symlink_raises = False, open_raises = False\<rparr>"

definition setup_environment :: "bool \<Rightarrow> bool \<Rightarrow> sysroot" where
  "setup_environment make_adjtime make_zoneinfo =
     \<lparr>localtime = None,
      zoneinfo = (\<lambda>z. make_zoneinfo \<and> z \<in> set host_zones),
      adjtime = (if make_adjtime then Some [''0.0 0 0.0'', ''0'', ''LOCAL''] else None),
      tz_log = []\<rparr>"

definition logged :: "level \<Rightarrow> (level \<times> string) list \<Rightarrow> bool" where
  "logged l recs = (l \<in> set (map fst recs))"

definition test_timezone_task_timezone_missing :: bool where
  "test_timezone_task_timezone_missing =
     (let s0 = setup_environment False True;
          s1 = s0\<lparr>zoneinfo := (zoneinfo s0)(''Asia/Ulaanbaatar'' := False)\<rparr>;
          (r, s) = ConfigureTimezoneTask_run host (Some ''Asia/Ulaanbaatar'') False s1
      in r = Inr () \<and> logged ERROR (tz_log s) \<and> localtime s = None)"

definition test_timezone_task_symlink_failure :: bool where
  "test_timezone_task_symlink_failure =
     (let s0 = setup_environment False True;
          (r, s) = ConfigureTimezoneTask_run (host\<lparr>symlink_raises := True\<rparr>)
                     (Some ''Asia/Ulaanbaatar'') False s0
      in r = Inr () \<and> logged ERROR (tz_log s) \<and> localtime s = None)"

definition test_timezone_task_write_adjtime_failure :: bool where
  "test_timezone_task_write_adjtime_failure =
     (let s0 = setup_environment False True;
          (r, s) = ConfigureTimezoneTask_run (host\<lparr>open_raises := True\<rparr>)
                     (Some ''Atlantic/Faroe'') False s0
      in r = Inl TimezoneConfigurationError \<and> adjtime s = None \<and> localtime s \<noteq> None)"

text \<open>
  \<^verbatim>\<open>_test_timezone_inputs\<close> and \<^verbatim>\<open>test_timezone_task_correction\<close>: the link and the
  last line of \<^verbatim>\<open>/etc/adjtime\<close> after the task has run on a fresh sysroot.
\<close>

definition test_timezone_inputs ::
  "string option \<Rightarrow> bool \<Rightarrow> bool \<Rightarrow> bool \<Rightarrow> string \<Rightarrow> string \<Rightarrow> bool" where
  "test_timezone_inputs input_zone input_isutc make_adjtime make_zoneinfo
       expected_symlink expected_adjtime_last_line =
     (let s0 = setup_environment make_adjtime make_zoneinfo;
          (r, s) = ConfigureTimezoneTask_run host input_zone input_isutc s0
      in r = Inr () \<and> localtime s = Some (Symlink expected_symlink) \<and>
         (case adjtime s of
            None \<Rightarrow> False
          | Some ls \<Rightarrow> ls \<noteq> [] \<and> last ls = expected_adjtime_last_line))"

definition test_timezone_task_correction :: bool where
  "test_timezone_task_correction =
     (test_timezone_inputs (Some []) True True True
        ''../usr/share/zoneinfo/America/New_York'' ''UTC'' \<and>
      test_timezone_inputs (Some ''BahBlah'') True True True
        ''../usr/share/zoneinfo/America/New_York'' ''UTC'' \<and>
      test_timezone_inputs None True True True
        ''../usr/share/zoneinfo/America/New_York'' ''UTC'')"

text \<open>
  The sysroot of \<^verbatim>\<open>test_timezone_task_timezone_missing\<close>, after the zone file is
  removed.
\<close>

definition ulaanbaatar_removed :: sysroot where
  "ulaanbaatar_removed =
     (setup_environment False True)
       \<lparr>zoneinfo := (zoneinfo (setup_environment False True))(''Asia/Ulaanbaatar'' := False)\<rparr>"

subsection \<open>ConfigureNTPTask\<close>

datatype source_type = SERVER | POOL

record TimeSourceData =
  ts_type :: source_type
  hostname :: string
  options :: "string list"

text \<open>
  The calls the task makes on \<^verbatim>\<open>pyanaconda.core.util\<close> (a mock in the tests), each
  with the service and the root it is given.
\<close>

datatype util_call =
    Is_service_installed string path
  | Enable_service string path
  | Disable_service string path

record ntp_state =
  util_calls :: "util_call list"
  chrony_conf :: "string list option"
  ntp_log :: "(level \<times> string) list"

text \<open>
  What the task takes from outside: the answer of \<^verbatim>\<open>util.is_service_installed\<close>, and
  what \<^verbatim>\<open>ntp.save_servers_to_config\<close> raises (\<open>None\<close> when it writes the file).
\<close>

record ntp_env =
  is_service_installed :: "string \<Rightarrow> path \<Rightarrow> bool"
  save_raises :: "exn option"

definition NTP_SERVICE :: string where
  "NTP_SERVICE = ''chronyd''"

definition space_join :: "string list \<Rightarrow> string" where
  "space_join ws = (case ws of [] \<Rightarrow> [] | w # r \<Rightarrow> foldl (\<lambda>acc x. acc @ '' '' @ x) w r)"

definition render_source :: "TimeSourceData \<Rightarrow> string" where
  "render_source src =
     space_join ((case ts_type src of SERVER \<Rightarrow> ''server'' | POOL \<Rightarrow> ''pool'')
                 # hostname src # options src)"

definition call_util :: "util_call \<Rightarrow> ntp_state \<Rightarrow> ntp_state" where
  "call_util c st = st\<lparr>util_calls := util_calls st @ [c]\<rparr>"

text \<open>
  Modelled from the spec: \<^verbatim>\<open>ConfigureNTPTask.run\<close>
  (\<^verbatim>\<open>pyanaconda/modules/timezone/installation.py\<close>) is missing from the sources; only its
  unit tests are there. The steps and their order are those of section 4.7 of the
  specification: ask whether the service is installed; if it is, enable it when NTP is
  requested and disable it otherwise; whatever the answer, when NTP is enabled and there
  is a time source, write the configuration file anew, one line for each source in the
  order given; a failure of that write is caught and logged as a warning. The service is
  \<^verbatim>\<open>chronyd\<close>, as the mock of the tests is asked.
\<close>

definition ConfigureNTPTask_run ::
  "ntp_env \<Rightarrow> path \<Rightarrow> bool \<Rightarrow> TimeSourceData list \<Rightarrow> ntp_state \<Rightarrow> (exn + unit) \<times> ntp_state" where
  "ConfigureNTPTask_run env root ntp_enabled ntp_servers st =
     (let st1 = call_util (Is_service_installed NTP_SERVICE root) st;
          st2 =
            (if \<not> is_service_installed env NTP_SERVICE root then st1
             else if ntp_enabled then call_util (Enable_service NTP_SERVICE root) st1
             else call_util (Disable_service NTP_SERVICE root) st1);
          st3 =
            (if ntp_enabled \<and> ntp_servers \<noteq> [] then
               (case save_raises env of
                  Some x \<Rightarrow> st2\<lparr>ntp_log := ntp_log st2 @ [(WARNING, ''failed to save NTP configuration'')]\<rparr>
                | None \<Rightarrow> st2\<lparr>chrony_conf := Some (map render_source ntp_servers)\<rparr>)
             else st2)
      in (Inr (), st3))"

text \<open>
  \<^verbatim>\<open>NTPTasksTestCase._validate_ntp_service\<close>: \<^verbatim>\<open>assert_called_once_with\<close> asks for
  exactly one call of the method, with these arguments; \<^verbatim>\<open>assert_not_called\<close> for none.
\<close>

fun is_query :: "util_call \<Rightarrow> bool" where
  "is_query (Is_service_installed _ _) = True"
| "is_query _ = False"

fun is_enable :: "util_call \<Rightarrow> bool" where
  "is_enable (Enable_service _ _) = True"
| "is_enable _ = False"

fun is_disable :: "util_call \<Rightarrow> bool" where
  "is_disable (Disable_service _ _) = True"
| "is_disable _ = False"

definition validate_ntp_service :: "path \<Rightarrow> util_call list \<Rightarrow> bool \<Rightarrow> bool \<Rightarrow> bool" where
  "validate_ntp_service root calls ntp_installed ntp_enabled =
     (filter is_query calls = [Is_service_installed ''chronyd'' root] \<and>
      (if \<not> ntp_installed then filter is_enable calls = [] \<and> filter is_disable calls = []
       else if ntp_enabled then
         filter is_enable calls = [Enable_service ''chronyd'' root] \<and> filter is_disable calls = []
       else
         filter is_enable calls = [] \<and> filter is_disable calls = [Disable_service ''chronyd'' root]))"

definition ntp_init :: ntp_state where
  "ntp_init = \<lparr>util_calls = [], chrony_conf = None, ntp_log = []\<rparr>"

section \<open>Sample inputs\<close>

text \<open>
  A directory \<^verbatim>\<open>/isodir\<close> holding one image \<^verbatim>\<open>a.iso\<close> of a given size and content
  and a text file, and a device node \<^verbatim>\<open>/dev/sr0\<close>; only the image mounts, and
  \<^verbatim>\<open>mount(8)\<close> cannot be run on anything else. Two policies; a marker file as Fedora
  writes it, one that ends in a no-break space, and the files \<^verbatim>\<open>verifyMedia\<close> is
  tried on.
\<close>

definition good_tree :: tree where
  "good_tree = \<lparr>discinfo = Loaded ''x86_64'', base_repo = Some True\<rparr>"

definition bad_tree :: tree where
  "bad_tree = \<lparr>discinfo = Malformed, base_repo = Some True\<rparr>"

definition empty_dir :: tree where
  "empty_dir = \<lparr>discinfo = Unreadable, base_repo = None\<rparr>"

definition iso_world :: "nat \<Rightarrow> tree \<Rightarrow> env" where
  "iso_world sz t =
     \<lparr>fs = (\<lambda>p. if p = ''/isodir'' then Some \<lparr>kind = Directory, st_size = 4096, entries = [''a.iso'']\<rparr>
                else if p = ''/isodir/a.iso'' then Some \<lparr>kind = Regular, st_size = sz, entries = []\<rparr>
                else if p = ''/isodir/notes.txt'' then Some \<lparr>kind = Regular, st_size = 12, entries = []\<rparr>
                else if p = ''/dev/sr0'' then Some \<lparr>kind = Special, st_size = 0, entries = []\<rparr>
                else None),
      isIsoImage = (\<lambda>p. p = ''/isodir/a.iso''),
      mount_cmd = (\<lambda>p mp. if p = ''/isodir/a.iso'' then Returns 0 else RaisesOSError),
      image_tree = (\<lambda>_. t),
      unmounted_tree = empty_dir\<rparr>"

definition raise_policy :: policy where
  "raise_policy = (\<lambda>_. ERROR_RAISE)"

definition continue_policy :: policy where
  "continue_policy = (\<lambda>_. ERROR_CONTINUE)"

definition fedora_marker :: unicode where
  "fedora_marker =
     ascii ''1539194970.388895'' @ [NL] @ ascii ''Fedora 29'' @ [NL] @ ascii ''x86_64'' @ [NL]"

definition nbsp_marker :: unicode where
  "nbsp_marker = ascii ''1'' @ [NL] @ ascii ''d'' @ [NL] @ ascii ''x86_64'' @ [0xA0]"

definition media_files :: files where
  "media_files =
     (\<lambda>p. if p = ''/mnt/.discinfo'' then Text fedora_marker
          else if p = ''/nbsp/.discinfo'' then Text nbsp_marker
          else if p = ''/dir/.discinfo'' then Fails IsADirectoryError
          else NoAccess)"

text \<open>
  A run of \<^verbatim>\<open>mountImage\<close>: at first nothing is there and the operator asks for another
  try, then the directory with the image is.
\<close>

definition no_world :: env where
  "no_world = \<lparr>fs = (\<lambda>_. None), isIsoImage = (\<lambda>_. False),
               mount_cmd = (\<lambda>_ _. RaisesOSError), image_tree = (\<lambda>_. bad_tree),
               unmounted_tree = empty_dir\<rparr>"

definition disc_inserted :: "nat \<Rightarrow> env" where
  "disc_inserted n = (if n = 0 then no_world else iso_world 4096 good_tree)"

definition patient_operator :: "nat \<Rightarrow> policy" where
  "patient_operator n = (if n = 0 then continue_policy else raise_policy)"

text \<open>
  Two devices: a CD of another architecture, and a USB stick written from the Fedora
  image.
\<close>

definition arm_marker :: unicode where
  "arm_marker =
     ascii ''1539194970.388895'' @ [NL] @ ascii ''Fedora 29'' @ [NL] @ ascii ''aarch64'' @ [NL]"

definition arm_cd :: device where
  "arm_cd = \<lparr>dev_name = ''sr0'', dev_type = ''cdrom'',
             dev_format = \<lparr>fmt_type = ''iso9660'', has_mount = True, mount_raises = None,
                           fmt_marker = Text arm_marker\<rparr>,
             controllable = True\<rparr>"

definition usb_stick :: device where
  "usb_stick = \<lparr>dev_name = ''sdb'', dev_type = ''disk'',
                dev_format = \<lparr>fmt_type = ''iso9660'', has_mount = True, mount_raises = None,
                              fmt_marker = Text fedora_marker\<rparr>,
                controllable = True\<rparr>"

definition two_devices :: devicetree where
  "two_devices = \<lparr>devices = [arm_cd, usb_stick], handle_format = (\<lambda>d. d),
                  mkdtemp_name = (\<lambda>n. ''/tmp/tmp'' @ replicate n (CHR ''x''))\<rparr>"

text \<open>The time sources of the NTP tests, and a sysroot whose NTP service is installed.\<close>

definition test_sources :: "TimeSourceData list" where
  "test_sources =
     [\<lparr>ts_type = SERVER, hostname = ''unique.ntp.server'', options = [''iburst'']\<rparr>,
      \<lparr>ts_type = POOL, hostname = ''another.unique.server'', options = []\<rparr>]"

definition chronyd_installed :: "exn option \<Rightarrow> ntp_env" where
  "chronyd_installed x = \<lparr>is_service_installed = (\<lambda>_ _. True), save_raises = x\<rparr>"

section \<open>Properties of findFirstIsoImage\<close>

lemma join_isodir: "join ''/isodir'' ''a.iso'' = ''/isodir/a.iso''"
  by (simp add: join_def sep_def)

lemma umount_mount: "umount mp (mount what mp st) = st"
  by (simp add: umount_def mount_def)

lemma umount_call_cb_mount: "umount mp (call_cb x (mount what mp st)) = call_cb x st"
  by (simp add: umount_def mount_def call_cb_def)

lemma mounts_call_cb: "mounts (call_cb x st) = mounts st"
  by (simp add: call_cb_def)

lemma visible_tree_mount: "visible_tree e (mount what mount_path st) = image_tree e what"
  by (simp add: visible_tree_def mount_def)

lemma check_candidate_mounted:
  assumes "mount_cmd e (join p fn) mount_path = Returns 0"
  shows "check_candidate cb e arch p fn st =
     (let what = join p fn; st1 = mount what mount_path st; t = image_tree e what in
      if \<not> isIsoImage e what then (Continue, st)
      else
        (case discinfo t of
           Unreadable \<Rightarrow> (Continue, st)
         | Malformed \<Rightarrow> (Continue, st1)
         | Loaded disc_arch \<Rightarrow>
             if disc_arch \<noteq> arch then (Continue, st)
             else if \<not> check_repodata t then (Continue, st)
             else
               (case fs e what of
                  None \<Rightarrow> (Raised FileNotFoundError, st1)
                | Some nd \<Rightarrow>
                    if st_size nd mod 2048 \<noteq> 0 then
                      (let exn = InvalidImageSizeError
                                   ''size is not a multiple of 2048 bytes'' what
                       in if cb exn = ERROR_RAISE then (Raised exn, call_cb exn st1)
                          else (Found fn, call_cb exn st))
                    else (Found fn, st))))"
  using assms
  by (simp add: check_candidate_def mounted_def visible_tree_mount umount_mount
      umount_call_cb_mount Let_def split: discinfo.splits option.splits)

lemma check_candidate_Found:
  assumes "check_candidate cb e arch p fn st = (Found f, st')"
    and "mount_status_ok e (join p fn)"
  shows "f = fn \<and> discinfo (image_tree e (join p fn)) = Loaded arch \<and> mounts st' = mounts st"
proof (cases "mount_cmd e (join p fn) mount_path")
  case RaisesOSError
  then show ?thesis using assms(1) by (simp add: check_candidate_def Let_def split: if_splits)
next
  case (Returns rc)
  then have "mount_cmd e (join p fn) mount_path = Returns 0"
    using assms(2) by (simp add: mount_status_ok_def)
  then show ?thesis
    using assms(1)
    by (auto simp: check_candidate_mounted Let_def mounts_call_cb
        split: if_splits discinfo.splits option.splits)
qed

lemma check_candidate_Continue:
  assumes "check_candidate cb e arch p fn st = (Continue, st')"
    and "mount_status_ok e (join p fn)"
    and "discinfo (image_tree e (join p fn)) \<noteq> Malformed"
  shows "mounts st' = mounts st"
proof (cases "mount_cmd e (join p fn) mount_path")
  case RaisesOSError
  then show ?thesis using assms(1) by (simp add: check_candidate_def Let_def split: if_splits)
next
  case (Returns rc)
  then have "mount_cmd e (join p fn) mount_path = Returns 0"
    using assms(2) by (simp add: mount_status_ok_def)
  then show ?thesis
    using assms(1,3)
    by (auto simp: check_candidate_mounted Let_def mounts_call_cb
        split: if_splits discinfo.splits option.splits)
qed

lemma scan_found_arch:
  "scan cb e arch p files st = (Inr (Some f), st') \<Longrightarrow>
   \<forall>fn\<in>set files. mount_status_ok e (join p fn) \<Longrightarrow>
   f \<in> set files \<and> discinfo (image_tree e (join p f)) = Loaded arch"
proof (induction files arbitrary: st)
  case Nil
  then show ?case by simp
next
  case (Cons fn fns)
  obtain r s1 where c: "check_candidate cb e arch p fn st = (r, s1)"
    by (cases "check_candidate cb e arch p fn st")
  show ?case
  proof (cases r)
    case Continue
    then show ?thesis using Cons c by auto
  next
    case (Found g)
    then show ?thesis using Cons.prems c check_candidate_Found [of cb e arch p fn st g s1] by auto
  next
    case (Raised x)
    then show ?thesis using Cons.prems c by simp
  qed
qed

lemma scan_returns_clean:
  "scan cb e arch p files st = (Inr r, st') \<Longrightarrow>
   \<forall>fn\<in>set files. mount_status_ok e (join p fn) \<and>
                     discinfo (image_tree e (join p fn)) \<noteq> Malformed \<Longrightarrow>
   mounts st' = mounts st"
proof (induction files arbitrary: st)
  case Nil
  then show ?case by simp
next
  case (Cons fn fns)
  obtain q s1 where c: "check_candidate cb e arch p fn st = (q, s1)"
    by (cases "check_candidate cb e arch p fn st")
  show ?case
  proof (cases q)
    case Continue
    have "mounts s1 = mounts st"
      using check_candidate_Continue [of cb e arch p fn st s1] c Continue Cons.prems(2) by simp
    moreover have "mounts st' = mounts s1"
      using Cons.IH [of s1] Cons.prems c Continue by simp
    ultimately show ?thesis by simp
  next
    case (Found g)
    then show ?thesis using Cons.prems c check_candidate_Found [of cb e arch p fn st g s1] by auto
  next
    case (Raised x)
    then show ?thesis using Cons.prems c by simp
  qed
qed

lemma findFirstIsoImage_cases:
  assumes "findFirstIsoImage cb e arch p st = (r, st')"
  shows "(fs e p = None \<and> r = Inr None \<and> st' = st) \<or>
         (\<exists>x. candidate_files e p = Inl x \<and> r = Inl x \<and> st' = st) \<or>
         (\<exists>dir files. candidate_files e p = Inr (dir, files) \<and>
                       scan cb e arch dir files st = (r, st'))"
proof (cases "fs e p")
  case None
  then show ?thesis using assms by (simp add: findFirstIsoImage_def)
next
  case (Some nd)
  show ?thesis
  proof (cases "candidate_files e p")
    case (Inl x)
    then show ?thesis using assms Some by (simp add: findFirstIsoImage_def)
  next
    case (Inr c)
    obtain dir files where "c = (dir, files)" by (cases c)
    then show ?thesis using assms Some Inr by (simp add: findFirstIsoImage_def)
  qed
qed

lemma findFirstIsoImage_found_arch:
  assumes "findFirstIsoImage cb e arch p st = (Inr (Some f), st')"
    and "\<And>dir files fn. candidate_files e p = Inr (dir, files) \<Longrightarrow> fn \<in> set files \<Longrightarrow>
           mount_status_ok e (join dir fn)"
  shows "\<exists>dir files. candidate_files e p = Inr (dir, files) \<and> f \<in> set files \<and>
                      discinfo (image_tree e (join dir f)) = Loaded arch"
proof -
  obtain dir files where c: "candidate_files e p = Inr (dir, files)"
    and s: "scan cb e arch dir files st = (Inr (Some f), st')"
    using findFirstIsoImage_cases [OF assms(1)] by auto
  have "\<forall>fn\<in>set files. mount_status_ok e (join dir fn)" using assms(2) c by blast
  then show ?thesis using c scan_found_arch [OF s] by simp
qed

lemma findFirstIsoImage_returns_clean:
  assumes "findFirstIsoImage cb e arch p st = (Inr r, st')"
    and "\<And>dir files fn. candidate_files e p = Inr (dir, files) \<Longrightarrow> fn \<in> set files \<Longrightarrow>
           mount_status_ok e (join dir fn) \<and> discinfo (image_tree e (join dir fn)) \<noteq> Malformed"
  shows "mounts st' = mounts st"
proof -
  consider "st' = st"
    | dir files where "candidate_files e p = Inr (dir, files)"
        and "scan cb e arch dir files st = (Inr r, st')"
    using findFirstIsoImage_cases [OF assms(1)] by auto
  then show ?thesis
  proof cases
    case 1
    then show ?thesis by simp
  next
    case 2
    have "\<forall>fn\<in>set files. mount_status_ok e (join dir fn) \<and>
                            discinfo (image_tree e (join dir fn)) \<noteq> Malformed"
      using assms(2) 2(1) by blast
    then show ?thesis using scan_returns_clean [OF 2(2)] by simp
  qed
qed

lemma scan_append:
  "scan cb e arch p pre st = (Inr None, st1) \<Longrightarrow>
   scan cb e arch p (pre @ rest) st = scan cb e arch p rest st1"
proof (induction pre arbitrary: st)
  case Nil
  then show ?case by simp
next
  case (Cons fn fns)
  obtain q s1 where c: "check_candidate cb e arch p fn st = (q, s1)"
    by (cases "check_candidate cb e arch p fn st")
  show ?case using Cons c by (cases q) auto
qed

lemma check_candidate_bad_size:
  assumes "isIsoImage e (join p fn)" and "mount_ok e (join p fn) mount_path"
    and "discinfo (image_tree e (join p fn)) = Loaded arch"
    and "check_repodata (image_tree e (join p fn))"
    and "fs e (join p fn) = Some nd" and "st_size nd mod 2048 \<noteq> 0"
  shows "check_candidate cb e arch p fn st =
     (let exn = InvalidImageSizeError ''size is not a multiple of 2048 bytes'' (join p fn)
      in if cb exn = ERROR_RAISE
         then (Raised exn, call_cb exn (mount (join p fn) mount_path st))
         else (Found fn, call_cb exn st))"
proof -
  have "mount_cmd e (join p fn) mount_path = Returns 0"
    using assms(2) by (simp add: mount_ok_def)
  then show ?thesis
    using assms by (simp add: check_candidate_mounted Let_def)
qed

text \<open>
  C1 (the code misses a case). The claim: findFirstIsoImage never returns a candidate
  whose architecture is not the running one, and when it returns no mount it made on the
  scratch mount point is still active, also when \<^verbatim>\<open>.discinfo\<close> fails to parse. The
  first half holds (\<open>findFirstIsoImage_found_arch\<close>), and so does the second as
  long as no candidate has a malformed \<^verbatim>\<open>.discinfo\<close>
  (\<open>findFirstIsoImage_returns_clean\<close>), both for candidates whose mount mounts them or
  raises. With a malformed \<^verbatim>\<open>.discinfo\<close> the function returns \<^verbatim>\<open>None\<close> and the
  image is still mounted: the \<^verbatim>\<open>except\<close> branch is the only rejection that does not
  call \<^verbatim>\<open>umount\<close>.
\<close>

theorem findFirstIsoImage_malformed_leaks:
  "findFirstIsoImage raise_policy (iso_world 4096 bad_tree) ''x86_64'' ''/isodir'' init_state
     = (Inr None, mount ''/isodir/a.iso'' mount_path init_state) \<and>
   mounts (snd (findFirstIsoImage raise_policy (iso_world 4096 bad_tree) ''x86_64'' ''/isodir''
                  init_state)) mount_path = [''/isodir/a.iso'']"
  by (simp add: findFirstIsoImage_def candidate_files_def isfile_def listdir_def iso_world_def
      bad_tree_def check_candidate_def join_isodir mounted_def visible_tree_def mount_def
      init_state_def endswith_def Let_def)

lemma scan_invalid_size:
  assumes "scan cb e arch p pre st = (Inr None, st1)"
    and "isIsoImage e (join p fn)" and "mount_ok e (join p fn) mount_path"
    and "discinfo (image_tree e (join p fn)) = Loaded arch"
    and "check_repodata (image_tree e (join p fn))"
    and "fs e (join p fn) = Some nd" and "st_size nd mod 2048 \<noteq> 0"
    and "exn = InvalidImageSizeError ''size is not a multiple of 2048 bytes'' (join p fn)"
  shows "scan cb e arch p (pre @ fn # post) st =
     (if cb exn = ERROR_RAISE
      then (Inl exn, call_cb exn (mount (join p fn) mount_path st1))
      else (Inr (Some fn), call_cb exn st1))"
proof -
  have "scan cb e arch p (pre @ fn # post) st = scan cb e arch p (fn # post) st1"
    using assms(1) by (rule scan_append)
  then show ?thesis
    using check_candidate_bad_size [OF assms(2-7), of cb st1] assms(8)
    by (simp add: Let_def)
qed

text \<open>
  C3. In findFirstIsoImage, a candidate that passes the architecture and repository
  checks and whose size is not a multiple of 2048 has an InvalidImageSizeError handed to
  the policy; on \<^verbatim>\<open>ERROR_RAISE\<close> the error leaves the function (the image still
  mounted), otherwise the image is unmounted and its name returned. The candidate is
  \<open>fn\<close>, reached after the candidates \<open>pre\<close>, all rejected.
\<close>

theorem findFirstIsoImage_invalid_size:
  assumes "fs e p = Some d" and "candidate_files e p = Inr (dir, pre @ fn # post)"
    and "scan cb e arch dir pre st = (Inr None, st1)"
    and "isIsoImage e (join dir fn)" and "mount_ok e (join dir fn) mount_path"
    and "discinfo (image_tree e (join dir fn)) = Loaded arch"
    and "check_repodata (image_tree e (join dir fn))"
    and "fs e (join dir fn) = Some nd" and "st_size nd mod 2048 \<noteq> 0"
    and "exn = InvalidImageSizeError ''size is not a multiple of 2048 bytes'' (join dir fn)"
  shows "findFirstIsoImage cb e arch p st =
     (if cb exn = ERROR_RAISE
      then (Inl exn, call_cb exn (mount (join dir fn) mount_path st1))
      else (Inr (Some fn), call_cb exn st1)) \<and>
     mounts (call_cb exn st1) = mounts st1 \<and>
     cb_calls (call_cb exn st1) = cb_calls st1 @ [exn]"
proof -
  have "findFirstIsoImage cb e arch p st = scan cb e arch dir (pre @ fn # post) st"
    using assms(1,2) by (simp add: findFirstIsoImage_def)
  then show ?thesis
    using scan_invalid_size [OF assms(3-10), of post]
    by (simp add: call_cb_def)
qed

theorem findFirstIsoImage_invalid_size_witness:
  "findFirstIsoImage raise_policy (iso_world 2049 good_tree) ''x86_64'' ''/isodir'' init_state
     = (Inl (InvalidImageSizeError ''size is not a multiple of 2048 bytes'' ''/isodir/a.iso''),
        call_cb (InvalidImageSizeError ''size is not a multiple of 2048 bytes'' ''/isodir/a.iso'')
          (mount ''/isodir/a.iso'' mount_path init_state)) \<and>
   findFirstIsoImage continue_policy (iso_world 2049 good_tree) ''x86_64'' ''/isodir'' init_state
     = (Inr (Some ''a.iso''),
        call_cb (InvalidImageSizeError ''size is not a multiple of 2048 bytes'' ''/isodir/a.iso'')
          init_state)"
proof -
  let ?e = "iso_world 2049 good_tree"
  let ?x = "InvalidImageSizeError ''size is not a multiple of 2048 bytes'' ''/isodir/a.iso''"
  have pre: "\<And>cb. scan cb ?e ''x86_64'' ''/isodir'' [] init_state = (Inr None, init_state)"
    by simp
  have d: "fs ?e ''/isodir'' = Some \<lparr>kind = Directory, st_size = 4096, entries = [''a.iso'']\<rparr>"
    and c: "candidate_files ?e ''/isodir'' = Inr (''/isodir'', [] @ ''a.iso'' # [])"
    by (simp_all add: iso_world_def candidate_files_def isfile_def listdir_def)
  have a: "isIsoImage ?e (join ''/isodir'' ''a.iso'')"
    and b: "mount_ok ?e (join ''/isodir'' ''a.iso'') mount_path"
    and t: "discinfo (image_tree ?e (join ''/isodir'' ''a.iso'')) = Loaded ''x86_64''"
    and r: "check_repodata (image_tree ?e (join ''/isodir'' ''a.iso''))"
    and f: "fs ?e (join ''/isodir'' ''a.iso'') = Some \<lparr>kind = Regular, st_size = 2049, entries = []\<rparr>"
    and g: "st_size \<lparr>kind = Regular, st_size = 2049, entries = []\<rparr> mod 2048 \<noteq> 0"
    and h: "?x = InvalidImageSizeError ''size is not a multiple of 2048 bytes'' (join ''/isodir'' ''a.iso'')"
    by (simp_all add: iso_world_def good_tree_def join_isodir check_repodata_def mount_ok_def)
  show ?thesis
    using findFirstIsoImage_invalid_size [where cb = raise_policy, OF d c pre a b t r f g h]
          findFirstIsoImage_invalid_size [where cb = continue_policy, OF d c pre a b t r f g h]
    by (simp add: raise_policy_def continue_policy_def join_isodir)
qed

text \<open>
  C10. For a path that is a regular file whose name does not end in \<^verbatim>\<open>.iso\<close>,
  findFirstIsoImage lists it as a directory and the NotADirectoryError leaves the
  function; a path that does not exist gives \<^verbatim>\<open>None\<close>.
\<close>

theorem findFirstIsoImage_not_a_directory:
  assumes "fs e p = Some nd" and "kind nd = Regular" and "\<not> endswith p ''.iso''"
  shows "findFirstIsoImage cb e arch p st = (Inl NotADirectoryError, st) \<and>
         (fs e q = None \<longrightarrow> findFirstIsoImage cb e arch q st = (Inr None, st))"
  using assms by (simp add: findFirstIsoImage_def candidate_files_def isfile_def listdir_def)

theorem findFirstIsoImage_not_a_directory_witness:
  "findFirstIsoImage raise_policy (iso_world 4096 good_tree) ''x86_64'' ''/isodir/notes.txt''
     init_state = (Inl NotADirectoryError, init_state) \<and>
   findFirstIsoImage raise_policy (iso_world 4096 good_tree) ''x86_64'' ''/nowhere''
     init_state = (Inr None, init_state)"
proof -
  let ?e = "iso_world 4096 good_tree"
  have a: "fs ?e ''/isodir/notes.txt'' = Some \<lparr>kind = Regular, st_size = 12, entries = []\<rparr>"
    and b: "kind \<lparr>kind = Regular, st_size = 12, entries = []\<rparr> = Regular"
    and c: "\<not> endswith ''/isodir/notes.txt'' ''.iso''"
    and d: "fs ?e ''/nowhere'' = None"
    by (simp_all add: iso_world_def endswith_def)
  show ?thesis
    using findFirstIsoImage_not_a_directory [OF a b c, of raise_policy "''x86_64''" init_state "''/nowhere''"] d
    by simp
qed

section \<open>Properties of mountImage\<close>

lemma ask_policy_cases:
  "ask_policy cb st =
     (if cb MissingImageError = ERROR_RAISE then Abort MissingImageError else Retry,
      call_cb MissingImageError st)"
  by (simp add: ask_policy_def Let_def)

lemma attempt_mount_cases:
  "attempt_mount cb e img tree st =
     (case mount_cmd e img tree of
        RaisesOSError \<Rightarrow>
          (if cb MissingImageError = ERROR_RAISE then Abort MissingImageError else Retry,
           call_cb MissingImageError st)
      | Returns rc \<Rightarrow> (Done, mounted rc img tree st))"
  by (simp add: attempt_mount_def ask_policy_cases split: mount_result.splits)

lemma loop_step:
  "mountImage_iter (P n) (W n) arch isodir tree s = (Retry, s') \<Longrightarrow>
   mountImage_loop P W arch isodir tree n s = mountImage_loop P W arch isodir tree (Suc n) s'"
  "mountImage_iter (P n) (W n) arch isodir tree s = (Done, s') \<Longrightarrow>
   mountImage_loop P W arch isodir tree n s = Some (Inr (), s')"
  "mountImage_iter (P n) (W n) arch isodir tree s = (Abort x, s') \<Longrightarrow>
   mountImage_loop P W arch isodir tree n s = Some (Inl x, s')"
  by (subst mountImage_loop.simps, simp)+

lemma loop_unroll:
  "\<forall>i<n. fst (pass P W arch isodir tree st i) = Retry \<Longrightarrow>
   mountImage_loop P W arch isodir tree 0 st =
   mountImage_loop P W arch isodir tree n (state_at P W arch isodir tree st n)"
proof (induction n)
  case 0
  show ?case by simp
next
  case (Suc n)
  have r: "fst (pass P W arch isodir tree st n) = Retry" using Suc.prems by simp
  then have it: "mountImage_iter (P n) (W n) arch isodir tree (state_at P W arch isodir tree st n)
                  = (Retry, state_at P W arch isodir tree st (Suc n))"
    by (simp add: pass_def prod_eq_iff)
  have "mountImage_loop P W arch isodir tree 0 st =
        mountImage_loop P W arch isodir tree n (state_at P W arch isodir tree st n)"
    using Suc by simp
  also have "\<dots> = mountImage_loop P W arch isodir tree (Suc n)
                     (state_at P W arch isodir tree st (Suc n))"
    using it by (rule loop_step(1))
  finally show ?case .
qed

lemma loop_ends:
  assumes "\<forall>i<n. fst (pass P W arch isodir tree st i) = Retry"
  shows "pass P W arch isodir tree st n = (Done, st') \<Longrightarrow>
           mountImage_loop P W arch isodir tree 0 st = Some (Inr (), st')"
    and "pass P W arch isodir tree st n = (Abort x, st') \<Longrightarrow>
           mountImage_loop P W arch isodir tree 0 st = Some (Inl x, st')"
  unfolding loop_unroll [OF assms] pass_def by (erule loop_step)+

lemma loop_Some_ends:
  assumes "mountImage_loop P W arch isodir tree n s = Some r"
  shows "s = state_at P W arch isodir tree st n \<longrightarrow>
         (\<forall>i<n. fst (pass P W arch isodir tree st i) = Retry) \<longrightarrow>
         (\<exists>m. ends_at P W arch isodir tree st m r)"
proof (rule mountImage_loop.raw_induct
    [where Pa = "\<lambda>((((((P, W), arch), isodir), tree), n), s) r.
       s = state_at P W arch isodir tree st n \<longrightarrow>
       (\<forall>i<n. fst (pass P W arch isodir tree st i) = Retry) \<longrightarrow>
       (\<exists>m. ends_at P W arch isodir tree st m r)"
     and P = P and W = W and arch = arch and isodir = isodir and tree = tree and n = n
     and st = s and y = r, simplified], goal_cases)
  case (1 f P W arch isodir tree n s y)
  obtain q s1 where it: "mountImage_iter (P n) (W n) arch isodir tree s = (q, s1)"
    by (cases "mountImage_iter (P n) (W n) arch isodir tree s")
  show ?case
  proof (intro impI)
    assume s: "s = state_at P W arch isodir tree st n"
      and retries: "\<forall>i<n. fst (pass P W arch isodir tree st i) = Retry"
    have p: "pass P W arch isodir tree st n = (q, s1)" using it s by (simp add: pass_def)
    show "\<exists>m. ends_at P W arch isodir tree st m y"
    proof (cases q)
      case Done
      then have "ends_at P W arch isodir tree st n y"
        using 1(2) it p retries by (simp add: ends_at_def)
      then show ?thesis ..
    next
      case (Abort x)
      then have "ends_at P W arch isodir tree st n y"
        using 1(2) it p retries by (simp add: ends_at_def)
      then show ?thesis ..
    next
      case Retry
      then have call: "f P W arch isodir tree (Suc n) s1 = Some y" using 1(2) it by simp
      have s1: "s1 = state_at P W arch isodir tree st (Suc n)" using it s by simp
      have "\<forall>i<Suc n. fst (pass P W arch isodir tree st i) = Retry"
        using retries p Retry by (simp add: less_Suc_eq)
      then show ?thesis using 1(1) [OF call] s1 by blast
    qed
  qed
next
  case 2
  show ?case using assms .
qed

lemma mountImage_Some_iff:
  "mountImage P W arch isodir tree st = Some r \<longleftrightarrow> (\<exists>m. ends_at P W arch isodir tree st m r)"
proof
  assume "mountImage P W arch isodir tree st = Some r"
  then show "\<exists>m. ends_at P W arch isodir tree st m r"
    using loop_Some_ends [of P W arch isodir tree 0 st r st] by (simp add: mountImage_def)
next
  assume "\<exists>m. ends_at P W arch isodir tree st m r"
  then obtain m where e: "ends_at P W arch isodir tree st m r" ..
  then have retries: "\<forall>i<m. fst (pass P W arch isodir tree st i) = Retry"
    by (simp add: ends_at_def)
  obtain q s1 where p: "pass P W arch isodir tree st m = (q, s1)"
    by (cases "pass P W arch isodir tree st m")
  show "mountImage P W arch isodir tree st = Some r"
  proof (cases q)
    case Done
    then show ?thesis using e p loop_ends(1) [OF retries, of s1]
      by (simp add: ends_at_def mountImage_def)
  next
    case (Abort x)
    then show ?thesis using e p loop_ends(2) [OF retries, of x s1]
      by (simp add: ends_at_def mountImage_def)
  next
    case Retry
    then show ?thesis using e p by (simp add: ends_at_def)
  qed
qed

lemma mountImage_None_iff:
  "mountImage P W arch isodir tree st = None \<longleftrightarrow>
   (\<forall>n. fst (pass P W arch isodir tree st n) = Retry)"
proof
  assume none: "mountImage P W arch isodir tree st = None"
  show "\<forall>n. fst (pass P W arch isodir tree st n) = Retry"
  proof (rule ccontr)
    assume "\<not> (\<forall>n. fst (pass P W arch isodir tree st n) = Retry)"
    then obtain n where n: "fst (pass P W arch isodir tree st n) \<noteq> Retry" by blast
    define m where "m = (LEAST k. fst (pass P W arch isodir tree st k) \<noteq> Retry)"
    have m: "fst (pass P W arch isodir tree st m) \<noteq> Retry"
      unfolding m_def using n by (rule LeastI)
    have before: "\<forall>i<m. fst (pass P W arch isodir tree st i) = Retry"
      unfolding m_def using not_less_Least by blast
    obtain q s1 where p: "pass P W arch isodir tree st m = (q, s1)"
      by (cases "pass P W arch isodir tree st m")
    have "\<exists>r. ends_at P W arch isodir tree st m r"
      using m p before by (cases q) (simp_all add: ends_at_def)
    then show False using none mountImage_Some_iff [of P W arch isodir tree st] by auto
  qed
next
  assume all: "\<forall>n. fst (pass P W arch isodir tree st n) = Retry"
  show "mountImage P W arch isodir tree st = None"
  proof (cases "mountImage P W arch isodir tree st")
    case None
    then show ?thesis .
  next
    case (Some r)
    then obtain m where "ends_at P W arch isodir tree st m r"
      using mountImage_Some_iff [of P W arch isodir tree st r] by blast
    then show ?thesis using all [rule_format, of m]
      by (cases "pass P W arch isodir tree st m") (auto simp: ends_at_def)
  qed
qed

lemma iter_not_found:
  "\<not> isfile e isodir \<Longrightarrow> findFirstIsoImage cb e arch isodir s = (Inr None, s1) \<Longrightarrow>
   mountImage_iter cb e arch isodir tree s =
     (if cb MissingImageError = ERROR_RAISE then Abort MissingImageError else Retry,
      call_cb MissingImageError s1)"
  by (simp add: mountImage_iter_def ask_policy_cases)

lemma iter_file_mount_raises:
  "isfile e isodir \<Longrightarrow> mount_cmd e isodir tree = RaisesOSError \<Longrightarrow>
   mountImage_iter cb e arch isodir tree s =
     (if cb MissingImageError = ERROR_RAISE then Abort MissingImageError else Retry,
      call_cb MissingImageError s)"
  by (simp add: mountImage_iter_def attempt_mount_cases)

lemma iter_found_mount_raises:
  "\<not> isfile e isodir \<Longrightarrow> findFirstIsoImage cb e arch isodir s = (Inr (Some img), s1) \<Longrightarrow>
   mount_cmd e (normpath (isodir @ [sep] @ img)) tree = RaisesOSError \<Longrightarrow>
   mountImage_iter cb e arch isodir tree s =
     (if cb MissingImageError = ERROR_RAISE then Abort MissingImageError else Retry,
      call_cb MissingImageError s1)"
  by (simp add: mountImage_iter_def attempt_mount_cases)

lemma iter_scanner_raises:
  "\<not> isfile e isodir \<Longrightarrow> findFirstIsoImage cb e arch isodir s = (Inl y, s1) \<Longrightarrow>
   mountImage_iter cb e arch isodir tree s = (Abort y, s1)"
  by (simp add: mountImage_iter_def)

lemma iter_file_mounted:
  "isfile e isodir \<Longrightarrow> mount_ok e isodir tree \<Longrightarrow>
   mountImage_iter cb e arch isodir tree s = (Done, mount isodir tree s)"
  by (simp add: mountImage_iter_def attempt_mount_cases mount_ok_def mounted_def)

lemma iter_found_mounted:
  "\<not> isfile e isodir \<Longrightarrow> findFirstIsoImage cb e arch isodir s = (Inr (Some img), s1) \<Longrightarrow>
   mount_ok e (normpath (isodir @ [sep] @ img)) tree \<Longrightarrow>
   mountImage_iter cb e arch isodir tree s =
     (Done, mount (normpath (isodir @ [sep] @ img)) tree s1)"
  by (simp add: mountImage_iter_def attempt_mount_cases mount_ok_def mounted_def)

lemma iter_Done_only:
  assumes "fst (mountImage_iter cb e arch isodir tree s) = Done"
  shows "(isfile e isodir \<and> mount_cmd e isodir tree \<noteq> RaisesOSError) \<or>
         (\<not> isfile e isodir \<and>
          (\<exists>img s1. findFirstIsoImage cb e arch isodir s = (Inr (Some img), s1) \<and>
                    mount_cmd e (normpath (isodir @ [sep] @ img)) tree \<noteq> RaisesOSError))"
proof (cases "isfile e isodir")
  case True
  then show ?thesis using assms
    by (auto simp: mountImage_iter_def attempt_mount_cases split: mount_result.splits if_splits)
next
  case False
  obtain r s1 where f: "findFirstIsoImage cb e arch isodir s = (r, s1)"
    by (cases "findFirstIsoImage cb e arch isodir s")
  show ?thesis
  proof (cases r)
    case (Inl x)
    then show ?thesis using False f assms by (simp add: mountImage_iter_def)
  next
    case (Inr o1)
    show ?thesis
    proof (cases o1)
      case None
      then show ?thesis using False f Inr assms
        by (simp add: mountImage_iter_def ask_policy_cases split: if_splits)
    next
      case (Some img)
      then show ?thesis using False f Inr assms
        by (auto simp: mountImage_iter_def attempt_mount_cases
            split: mount_result.splits if_splits)
    qed
  qed
qed

lemma ends_at_Done:
  "ends_at P W arch isodir tree st m (Inr (), st') \<longleftrightarrow>
   (\<forall>i<m. fst (pass P W arch isodir tree st i) = Retry) \<and>
   pass P W arch isodir tree st m = (Done, st')"
proof -
  obtain q s1 where p: "pass P W arch isodir tree st m = (q, s1)"
    by (cases "pass P W arch isodir tree st m")
  show ?thesis by (cases q) (auto simp: ends_at_def p)
qed

lemma ends_at_Abort:
  "ends_at P W arch isodir tree st m (Inl x, st') \<longleftrightarrow>
   (\<forall>i<m. fst (pass P W arch isodir tree st i) = Retry) \<and>
   pass P W arch isodir tree st m = (Abort x, st')"
proof -
  obtain q s1 where p: "pass P W arch isodir tree st m = (q, s1)"
    by (cases "pass P W arch isodir tree st m")
  show ?thesis by (cases q) (auto simp: ends_at_def p)
qed

text \<open>
  C4 (corrected). The claim: mountImage loops until a mount succeeds or the policy
  aborts. Nothing in the loop catches what \<^verbatim>\<open>findFirstIsoImage\<close> raises: on a source
  that is neither a file nor a directory, \<^verbatim>\<open>os.listdir\<close> raises and the error leaves
  mountImage, with a policy that would always continue never asked and nothing mounted.
\<close>

theorem mountImage_scanner_exception_leaves:
  "mountImage (\<lambda>_. continue_policy) (\<lambda>_. iso_world 4096 good_tree) ''x86_64'' ''/dev/sr0''
     ''/mnt/sysimage'' init_state
   = Some (Inl NotADirectoryError, init_state)"
proof -
  have "mountImage_iter continue_policy (iso_world 4096 good_tree) ''x86_64'' ''/dev/sr0''
          ''/mnt/sysimage'' init_state = (Abort NotADirectoryError, init_state)"
    by (simp add: mountImage_iter_def isfile_def findFirstIsoImage_def candidate_files_def
        listdir_def iso_world_def)
  then show ?thesis
    unfolding mountImage_def by (rule loop_step(3))
qed

text \<open>
  The status \<^verbatim>\<open>blivet.util.mount\<close> returns is not looked at: a mount that fails with
  a status (here 32, for a file that is no image) ends the loop as a mount that
  succeeded does, with nothing mounted and the policy not asked.
\<close>

lemma mountImage_failed_status_returns:
  "mountImage (\<lambda>_. raise_policy) (\<lambda>_. (iso_world 4096 good_tree)\<lparr>mount_cmd := (\<lambda>_ _. Returns 32)\<rparr>)
     ''x86_64'' ''/isodir/notes.txt'' ''/mnt/sysimage'' init_state
   = Some (Inr (), init_state)"
proof -
  have "mountImage_iter raise_policy ((iso_world 4096 good_tree)\<lparr>mount_cmd := (\<lambda>_ _. Returns 32)\<rparr>)
          ''x86_64'' ''/isodir/notes.txt'' ''/mnt/sysimage'' init_state = (Done, init_state)"
    by (simp add: mountImage_iter_def isfile_def attempt_mount_cases mounted_def iso_world_def)
  then show ?thesis
    unfolding mountImage_def by (rule loop_step(2))
qed

text \<open>
  C4 as amended. In one pass: when the source is not a file and the scanner finds
  nothing, when the source is a file and \<^verbatim>\<open>blivet.util.mount\<close> of it raises
  \<^verbatim>\<open>OSError\<close>, and when the mount of the image the scanner found raises \<^verbatim>\<open>OSError\<close>, a
  MissingImageError is handed to the policy, \<^verbatim>\<open>ERROR_RAISE\<close> raising it out of the
  function and any other answer starting the next pass; an exception of the scanner
  leaves the function as it is; a mount that succeeds ends the loop normally with the
  image mounted on the target; and a pass ends the loop normally only after a mount call
  that did not raise. For the loop: a pass that asks for a retry is followed by the next
  pass from image resolution; the function returns normally exactly when some pass,
  after passes that all retried, ends normally; it raises exactly when such a pass
  aborts; and it never returns exactly when every pass retries.
\<close>

theorem mountImage_retry_policy:
  "(\<not> isfile e isodir \<and> findFirstIsoImage cb e arch isodir s = (Inr None, s1) \<longrightarrow>
      mountImage_iter cb e arch isodir tree s =
        (if cb MissingImageError = ERROR_RAISE then Abort MissingImageError else Retry,
         call_cb MissingImageError s1)) \<and>
   (isfile e isodir \<and> mount_cmd e isodir tree = RaisesOSError \<longrightarrow>
      mountImage_iter cb e arch isodir tree s =
        (if cb MissingImageError = ERROR_RAISE then Abort MissingImageError else Retry,
         call_cb MissingImageError s)) \<and>
   (\<not> isfile e isodir \<and> findFirstIsoImage cb e arch isodir s = (Inr (Some img), s1) \<and>
    mount_cmd e (normpath (isodir @ [sep] @ img)) tree = RaisesOSError \<longrightarrow>
      mountImage_iter cb e arch isodir tree s =
        (if cb MissingImageError = ERROR_RAISE then Abort MissingImageError else Retry,
         call_cb MissingImageError s1)) \<and>
   (\<not> isfile e isodir \<and> findFirstIsoImage cb e arch isodir s = (Inl y, s1) \<longrightarrow>
      mountImage_iter cb e arch isodir tree s = (Abort y, s1)) \<and>
   (isfile e isodir \<and> mount_ok e isodir tree \<longrightarrow>
      mountImage_iter cb e arch isodir tree s = (Done, mount isodir tree s)) \<and>
   (\<not> isfile e isodir \<and> findFirstIsoImage cb e arch isodir s = (Inr (Some img), s1) \<and>
    mount_ok e (normpath (isodir @ [sep] @ img)) tree \<longrightarrow>
      mountImage_iter cb e arch isodir tree s =
        (Done, mount (normpath (isodir @ [sep] @ img)) tree s1)) \<and>
   (fst (mountImage_iter cb e arch isodir tree s) = Done \<longrightarrow>
      (isfile e isodir \<and> mount_cmd e isodir tree \<noteq> RaisesOSError) \<or>
      (\<not> isfile e isodir \<and>
       (\<exists>img s1. findFirstIsoImage cb e arch isodir s = (Inr (Some img), s1) \<and>
                 mount_cmd e (normpath (isodir @ [sep] @ img)) tree \<noteq> RaisesOSError))) \<and>
   (mountImage_iter (P n) (W n) arch isodir tree s = (Retry, s') \<longrightarrow>
      mountImage_loop P W arch isodir tree n s = mountImage_loop P W arch isodir tree (Suc n) s') \<and>
   (mountImage P W arch isodir tree st = Some (Inr (), st') \<longleftrightarrow>
      (\<exists>n. (\<forall>i<n. fst (pass P W arch isodir tree st i) = Retry) \<and>
           pass P W arch isodir tree st n = (Done, st'))) \<and>
   (mountImage P W arch isodir tree st = Some (Inl x, st') \<longleftrightarrow>
      (\<exists>n. (\<forall>i<n. fst (pass P W arch isodir tree st i) = Retry) \<and>
           pass P W arch isodir tree st n = (Abort x, st'))) \<and>
   (mountImage P W arch isodir tree st = None \<longleftrightarrow>
      (\<forall>n. fst (pass P W arch isodir tree st n) = Retry))"
proof (intro conjI)
  show "\<not> isfile e isodir \<and> findFirstIsoImage cb e arch isodir s = (Inr None, s1) \<longrightarrow>
      mountImage_iter cb e arch isodir tree s =
        (if cb MissingImageError = ERROR_RAISE then Abort MissingImageError else Retry,
         call_cb MissingImageError s1)"
    using iter_not_found by blast
  show "isfile e isodir \<and> mount_cmd e isodir tree = RaisesOSError \<longrightarrow>
      mountImage_iter cb e arch isodir tree s =
        (if cb MissingImageError = ERROR_RAISE then Abort MissingImageError else Retry,
         call_cb MissingImageError s)"
    using iter_file_mount_raises by blast
  show "\<not> isfile e isodir \<and> findFirstIsoImage cb e arch isodir s = (Inr (Some img), s1) \<and>
    mount_cmd e (normpath (isodir @ [sep] @ img)) tree = RaisesOSError \<longrightarrow>
      mountImage_iter cb e arch isodir tree s =
        (if cb MissingImageError = ERROR_RAISE then Abort MissingImageError else Retry,
         call_cb MissingImageError s1)"
    using iter_found_mount_raises by blast
  show "\<not> isfile e isodir \<and> findFirstIsoImage cb e arch isodir s = (Inl y, s1) \<longrightarrow>
      mountImage_iter cb e arch isodir tree s = (Abort y, s1)"
    using iter_scanner_raises by blast
  show "isfile e isodir \<and> mount_ok e isodir tree \<longrightarrow>
      mountImage_iter cb e arch isodir tree s = (Done, mount isodir tree s)"
    using iter_file_mounted by blast
  show "\<not> isfile e isodir \<and> findFirstIsoImage cb e arch isodir s = (Inr (Some img), s1) \<and>
    mount_ok e (normpath (isodir @ [sep] @ img)) tree \<longrightarrow>
      mountImage_iter cb e arch isodir tree s =
        (Done, mount (normpath (isodir @ [sep] @ img)) tree s1)"
    using iter_found_mounted by blast
  show "fst (mountImage_iter cb e arch isodir tree s) = Done \<longrightarrow>
      (isfile e isodir \<and> mount_cmd e isodir tree \<noteq> RaisesOSError) \<or>
      (\<not> isfile e isodir \<and>
       (\<exists>img s1. findFirstIsoImage cb e arch isodir s = (Inr (Some img), s1) \<and>
                 mount_cmd e (normpath (isodir @ [sep] @ img)) tree \<noteq> RaisesOSError))"
    using iter_Done_only by blast
  show "mountImage_iter (P n) (W n) arch isodir tree s = (Retry, s') \<longrightarrow>
      mountImage_loop P W arch isodir tree n s = mountImage_loop P W arch isodir tree (Suc n) s'"
    using loop_step(1) by blast
  show "mountImage P W arch isodir tree st = Some (Inr (), st') \<longleftrightarrow>
      (\<exists>n. (\<forall>i<n. fst (pass P W arch isodir tree st i) = Retry) \<and>
           pass P W arch isodir tree st n = (Done, st'))"
    by (simp only: mountImage_Some_iff ends_at_Done)
  show "mountImage P W arch isodir tree st = Some (Inl x, st') \<longleftrightarrow>
      (\<exists>n. (\<forall>i<n. fst (pass P W arch isodir tree st i) = Retry) \<and>
           pass P W arch isodir tree st n = (Abort x, st'))"
    by (simp only: mountImage_Some_iff ends_at_Abort)
  show "mountImage P W arch isodir tree st = None \<longleftrightarrow>
      (\<forall>n. fst (pass P W arch isodir tree st n) = Retry)"
    by (rule mountImage_None_iff)
qed

lemma normpath_isodir: "normpath (''/isodir'' @ [sep] @ ''a.iso'') = ''/isodir/a.iso''"
  by (simp add: normpath_def sep_def Let_def)

lemma pass0:
  "pass patient_operator disc_inserted ''x86_64'' ''/isodir'' ''/mnt/sysimage'' init_state 0
     = (Retry, call_cb MissingImageError init_state)"
  by (simp add: pass_def mountImage_iter_def isfile_def disc_inserted_def no_world_def
      findFirstIsoImage_def candidate_files_def ask_policy_cases patient_operator_def continue_policy_def)

lemma scan_good:
  "scan cb (iso_world 4096 good_tree) ''x86_64'' ''/isodir'' [''a.iso''] s = (Inr (Some ''a.iso''), s)"
  by (simp add: check_candidate_def join_def sep_def iso_world_def good_tree_def
      check_repodata_def umount_def mount_def mounted_def visible_tree_def mount_path_def)

lemma find_good:
  "findFirstIsoImage cb (iso_world 4096 good_tree) ''x86_64'' ''/isodir'' s = (Inr (Some ''a.iso''), s)"
  using scan_good [of cb s]
  by (simp add: findFirstIsoImage_def candidate_files_def isfile_def listdir_def iso_world_def)

lemma pass1:
  "pass patient_operator disc_inserted ''x86_64'' ''/isodir'' ''/mnt/sysimage'' init_state 1
     = (Done, mount ''/isodir/a.iso'' ''/mnt/sysimage'' (call_cb MissingImageError init_state))"
proof -
  have s1: "state_at patient_operator disc_inserted ''x86_64'' ''/isodir'' ''/mnt/sysimage'' init_state 1
              = call_cb MissingImageError init_state"
    using pass0 by (simp add: pass_def)
  have nf: "\<not> isfile (iso_world 4096 good_tree) ''/isodir''"
    by (simp add: isfile_def iso_world_def)
  have ok: "mount_ok (iso_world 4096 good_tree) ''/isodir/a.iso'' ''/mnt/sysimage''"
    by (simp add: iso_world_def mount_ok_def)
  have ok': "mount_ok (iso_world 4096 good_tree) (normpath (''/isodir'' @ [sep] @ ''a.iso''))
               ''/mnt/sysimage''"
    using ok by (simp only: normpath_isodir)
  have f: "findFirstIsoImage raise_policy (iso_world 4096 good_tree) ''x86_64'' ''/isodir''
             (call_cb MissingImageError init_state)
           = (Inr (Some ''a.iso''), call_cb MissingImageError init_state)"
    by (rule find_good)
  show ?thesis
    unfolding pass_def s1
    using iter_found_mounted [OF nf f ok']
    by (simp only: normpath_isodir disc_inserted_def patient_operator_def) simp
qed

theorem mountImage_retry_policy_witness:
  "mountImage patient_operator disc_inserted ''x86_64'' ''/isodir'' ''/mnt/sysimage'' init_state
     = Some (Inr (), mount ''/isodir/a.iso'' ''/mnt/sysimage''
                       (call_cb MissingImageError init_state)) \<and>
   mountImage (\<lambda>_. raise_policy) (\<lambda>_. iso_world 4096 good_tree) ''x86_64''
       ''/isodir/notes.txt'' ''/mnt/sysimage'' init_state
     = Some (Inl MissingImageError, call_cb MissingImageError init_state)"
proof -
  have "\<forall>i<1. fst (pass patient_operator disc_inserted ''x86_64'' ''/isodir'' ''/mnt/sysimage''
                       init_state i) = Retry"
    using pass0 by simp
  then have "\<exists>n. (\<forall>i<n. fst (pass patient_operator disc_inserted ''x86_64'' ''/isodir''
                              ''/mnt/sysimage'' init_state i) = Retry) \<and>
       pass patient_operator disc_inserted ''x86_64'' ''/isodir'' ''/mnt/sysimage'' init_state n
         = (Done, mount ''/isodir/a.iso'' ''/mnt/sysimage'' (call_cb MissingImageError init_state))"
    using pass1 by blast
  then have first: "mountImage patient_operator disc_inserted ''x86_64'' ''/isodir''
       ''/mnt/sysimage'' init_state
     = Some (Inr (), mount ''/isodir/a.iso'' ''/mnt/sysimage''
                       (call_cb MissingImageError init_state))"
    by (rule mountImage_retry_policy [THEN conjunct2, THEN conjunct2, THEN conjunct2,
          THEN conjunct2, THEN conjunct2, THEN conjunct2, THEN conjunct2, THEN conjunct2,
          THEN conjunct1, THEN iffD2])
  let ?e = "iso_world 4096 good_tree"
  have "isfile ?e ''/isodir/notes.txt'' \<and>
        mount_cmd ?e ''/isodir/notes.txt'' ''/mnt/sysimage'' = RaisesOSError"
    by (simp add: isfile_def iso_world_def)
  then have "mountImage_iter raise_policy ?e ''x86_64'' ''/isodir/notes.txt'' ''/mnt/sysimage''
               init_state
             = (if raise_policy MissingImageError = ERROR_RAISE then Abort MissingImageError
                else Retry, call_cb MissingImageError init_state)"
    by (rule mountImage_retry_policy [THEN conjunct2, THEN conjunct1, THEN mp])
  then have "pass (\<lambda>_. raise_policy) (\<lambda>_. ?e) ''x86_64'' ''/isodir/notes.txt'' ''/mnt/sysimage''
               init_state 0 = (Abort MissingImageError, call_cb MissingImageError init_state)"
    by (simp add: pass_def raise_policy_def)
  then have "\<exists>n. (\<forall>i<n. fst (pass (\<lambda>_. raise_policy) (\<lambda>_. ?e) ''x86_64'' ''/isodir/notes.txt''
                              ''/mnt/sysimage'' init_state i) = Retry) \<and>
       pass (\<lambda>_. raise_policy) (\<lambda>_. ?e) ''x86_64'' ''/isodir/notes.txt'' ''/mnt/sysimage''
         init_state n = (Abort MissingImageError, call_cb MissingImageError init_state)"
    by (intro exI [of _ 0]) simp
  then have second: "mountImage (\<lambda>_. raise_policy) (\<lambda>_. ?e) ''x86_64'' ''/isodir/notes.txt''
       ''/mnt/sysimage'' init_state
     = Some (Inl MissingImageError, call_cb MissingImageError init_state)"
    by (rule mountImage_retry_policy [THEN conjunct2, THEN conjunct2, THEN conjunct2,
          THEN conjunct2, THEN conjunct2, THEN conjunct2, THEN conjunct2, THEN conjunct2,
          THEN conjunct2, THEN conjunct1, THEN iffD2])
  show ?thesis using first second by simp
qed

section \<open>Properties of opticalInstallMedia\<close>

lemma try_device_state:
  "snd (try_device dt arch dev st) =
     (if controllable dev \<and> has_mount (dev_format (handle_format dt dev))
      then st\<lparr>mkdtemp_count := Suc (mkdtemp_count st)\<rparr> else st)"
  by (auto simp: try_device_def mkdtemp_def rmdir_def mount_def umount_def Let_def
      split: option.splits sum.splits bool.splits)

lemma optical_loop_clean:
  "mounts (snd (optical_loop dt arch devs st)) = mounts st \<and>
   tmpdirs (snd (optical_loop dt arch devs st)) = tmpdirs st"
proof (induction devs arbitrary: st)
  case Nil
  show ?case by simp
next
  case (Cons d ds)
  obtain r st' where t: "try_device dt arch d st = (r, st')" by (cases "try_device dt arch d st")
  have "st' = snd (try_device dt arch d st)" using t by simp
  then have m: "mounts st' = mounts st" and d: "tmpdirs st' = tmpdirs st"
    by (simp_all add: try_device_state)
  show ?case using Cons.IH [of st'] t m d by (cases r) simp_all
qed

text \<open>
  C5. Whatever happens to a candidate of opticalInstallMedia (not controllable, no
  \<^verbatim>\<open>mount\<close> method, \<^verbatim>\<open>mount\<close> raising FSError or anything else, verifyMedia
  answering false, answering true, or raising), the state after it is the state before
  it but for the count of scratch directories made: no mount and no scratch directory
  is left before the next candidate is tried or the function returns.
\<close>

theorem opticalInstallMedia_releases:
  "snd (try_device dt arch dev st) =
     (if controllable dev \<and> has_mount (dev_format (handle_format dt dev))
      then st\<lparr>mkdtemp_count := Suc (mkdtemp_count st)\<rparr> else st) \<and>
   mounts (snd (optical_loop dt arch devs st)) = mounts st \<and>
   tmpdirs (snd (optical_loop dt arch devs st)) = tmpdirs st \<and>
   mounts (snd (opticalInstallMedia dt arch st)) = mounts st \<and>
   tmpdirs (snd (opticalInstallMedia dt arch st)) = tmpdirs st"
  by (simp add: try_device_state optical_loop_clean opticalInstallMedia_def)

lemma verify_arm:
  "verifyMedia (mounted_files mp arm_cd) (ascii ''x86_64'') mp None = Inr False"
  by (simp add: verifyMedia_def mounted_files_def arm_cd_def arm_marker_def readline_def
      strip_def isspace_def NL_def ascii_def)

lemma verify_usb:
  "verifyMedia (mounted_files mp usb_stick) (ascii ''x86_64'') mp None = Inr True"
  by (simp add: verifyMedia_def mounted_files_def usb_stick_def fedora_marker_def readline_def
      strip_def isspace_def NL_def ascii_def)

lemma try_arm: "fst (try_device two_devices (ascii ''x86_64'') arm_cd st) = Continue"
  using verify_arm
  by (simp add: try_device_def two_devices_def mkdtemp_def Let_def) (simp add: arm_cd_def)

lemma try_usb: "fst (try_device two_devices (ascii ''x86_64'') usb_stick st) = Found usb_stick"
  using verify_usb
  by (simp add: try_device_def two_devices_def mkdtemp_def Let_def) (simp add: usb_stick_def)

lemma candidates_two: "candidates two_devices = [arm_cd, usb_stick]"
  by (simp add: candidates_def two_devices_def arm_cd_def usb_stick_def)

theorem opticalInstallMedia_releases_witness:
  "fst (opticalInstallMedia two_devices (ascii ''x86_64'') init_state) = Inr (Some usb_stick) \<and>
   mkdtemp_count (snd (opticalInstallMedia two_devices (ascii ''x86_64'') init_state)) = 2 \<and>
   mounts (snd (opticalInstallMedia two_devices (ascii ''x86_64'') init_state)) = (\<lambda>_. []) \<and>
   tmpdirs (snd (opticalInstallMedia two_devices (ascii ''x86_64'') init_state)) = []"
proof -
  note r = opticalInstallMedia_releases [of two_devices "ascii ''x86_64''" _ init_state "[]"]
  obtain q1 s1 where t1: "try_device two_devices (ascii ''x86_64'') arm_cd init_state = (q1, s1)"
    by (cases "try_device two_devices (ascii ''x86_64'') arm_cd init_state")
  obtain q2 s2 where t2: "try_device two_devices (ascii ''x86_64'') usb_stick s1 = (q2, s2)"
    by (cases "try_device two_devices (ascii ''x86_64'') usb_stick s1")
  have q1: "q1 = Continue" using try_arm [of init_state] t1 by simp
  have q2: "q2 = Found usb_stick" using try_usb [of s1] t2 by simp
  have s1: "s1 = init_state\<lparr>mkdtemp_count := 1\<rparr>"
    using opticalInstallMedia_releases [of two_devices "ascii ''x86_64''" arm_cd init_state "[]"] t1
    by (simp add: two_devices_def arm_cd_def init_state_def)
  have s2: "s2 = init_state\<lparr>mkdtemp_count := 2\<rparr>"
    using opticalInstallMedia_releases [of two_devices "ascii ''x86_64''" usb_stick s1 "[]"] t2 s1
    by (simp add: two_devices_def usb_stick_def init_state_def)
  have "opticalInstallMedia two_devices (ascii ''x86_64'') init_state = (Inr (Some usb_stick), s2)"
    by (simp add: opticalInstallMedia_def candidates_two t1 t2 q1 q2)
  then show ?thesis using s2 by (simp add: init_state_def)
qed

section \<open>Properties of verifyMedia\<close>

lemma split_on_not_Nil: "split_on d s \<noteq> []"
  by (induction s) (auto split: list.splits)

lemma split_on_unfold:
  "split_on d s =
     takeWhile (\<lambda>c. c \<noteq> d) s #
       (case dropWhile (\<lambda>c. c \<noteq> d) s of [] \<Rightarrow> [] | c # r \<Rightarrow> split_on d r)"
proof (induction s)
  case Nil
  show ?case by simp
next
  case (Cons a s)
  show ?case
  proof (cases "a = d")
    case True
    then show ?thesis by simp
  next
    case False
    then show ?thesis using Cons.IH by (simp split: list.splits)
  qed
qed

lemma isspace_NL: "isspace NL"
  by (simp add: isspace_def NL_def)

lemma strip_snoc_space: "isspace c \<Longrightarrow> strip (l @ [c]) = strip l"
proof -
  assume c: "isspace c"
  show ?thesis
  proof (cases "\<forall>x\<in>set l. isspace x")
    case True
    then have a: "\<forall>x\<in>set (l @ [c]). isspace x" using c by simp
    have "dropWhile isspace (l @ [c]) = []"
      using a by (simp only: dropWhile_eq_Nil_conv)
    moreover have "dropWhile isspace l = []"
      using True by (simp only: dropWhile_eq_Nil_conv)
    ultimately show ?thesis by (simp only: strip_def)
  next
    case False
    then obtain x where "x \<in> set l" and "\<not> isspace x" by blast
    then have "dropWhile isspace (l @ [c]) = dropWhile isspace l @ [c]"
      by (rule dropWhile_append1)
    then show ?thesis using c by (simp add: strip_def)
  qed
qed

lemma readline_last_line:
  assumes "dropWhile (\<lambda>c. c \<noteq> NL) s = []"
  shows "readline s = (s, [])" and "split_on NL s = [s]"
proof -
  have tw: "takeWhile (\<lambda>c. c \<noteq> NL) s = s"
    using assms by (metis takeWhile_dropWhile_id append_Nil2)
  show "readline s = (s, [])"
    unfolding readline_def assms by simp
  show "split_on NL s = [s]"
    unfolding split_on_unfold [of NL s] assms tw by simp
qed

lemma readline_line:
  assumes "dropWhile (\<lambda>c. c \<noteq> NL) s = c # r"
  shows "readline s = (takeWhile (\<lambda>c. c \<noteq> NL) s @ [NL], r)"
    and "split_on NL s = takeWhile (\<lambda>c. c \<noteq> NL) s # split_on NL r"
proof -
  have "dropWhile (\<lambda>c. c \<noteq> NL) s \<noteq> []" unfolding assms by simp
  from hd_dropWhile [OF this] have c: "c = NL" unfolding assms by simp
  show "readline s = (takeWhile (\<lambda>c. c \<noteq> NL) s @ [NL], r)"
    unfolding readline_def assms using c by simp
  show "split_on NL s = takeWhile (\<lambda>c. c \<noteq> NL) s # split_on NL r"
    unfolding split_on_unfold [of NL s] assms by simp
qed

lemma readline_line0: "strip (fst (readline s)) = strip (marker_line 0 s)"
proof (cases "dropWhile (\<lambda>c. c \<noteq> NL) s")
  case Nil
  show ?thesis
    by (simp add: readline_last_line [OF Nil] marker_line_def)
next
  case (Cons c r)
  show ?thesis
    by (simp add: readline_line [OF Cons] marker_line_def strip_snoc_space isspace_NL)
qed

lemma readline_rest: "marker_line k (snd (readline s)) = marker_line (Suc k) s"
proof (cases "dropWhile (\<lambda>c. c \<noteq> NL) s")
  case Nil
  show ?thesis
    by (simp add: readline_last_line [OF Nil] marker_line_def)
next
  case (Cons c r)
  show ?thesis
    by (simp add: readline_line [OF Cons] marker_line_def Let_def)
qed

lemma verifyMedia_text:
  "f (tree @ ''/.discinfo'') = Text s \<Longrightarrow>
   verifyMedia f arch tree timestamp =
     Inr (case timestamp of
            Some ts \<Rightarrow> strip (marker_line 0 s) = ts \<and> strip (marker_line 2 s) = arch
          | None \<Rightarrow> strip (marker_line 2 s) = arch)"
proof -
  assume t: "f (tree @ ''/.discinfo'') = Text s"
  have l3: "strip (fst (readline (snd (readline (snd (readline s)))))) = strip (marker_line 2 s)"
    using readline_line0 [of "snd (readline (snd (readline s)))"]
          readline_rest [of 0 "snd (readline s)"] readline_rest [of 1 s]
    by (simp add: numeral_2_eq_2)
  show ?thesis using t l3 readline_line0 [of s]
    by (simp add: verifyMedia_def split_beta Let_def split: option.splits)
qed

text \<open>
  C7. verifyMedia returns false when \<^verbatim>\<open>.discinfo\<close> under the tree is unreadable
  (\<^verbatim>\<open>os.access\<close> denies it); given a timestamp it returns true exactly when the first
  line, stripped, is that timestamp and the third line, stripped, is the running
  architecture; given none, exactly when the third line, stripped, is the running
  architecture. It returns nothing, but raises, exactly when the file passes
  \<^verbatim>\<open>os.access\<close> and opening or reading it raises.
\<close>

theorem verifyMedia_spec:
  "(f (tree @ ''/.discinfo'') = NoAccess \<longrightarrow> verifyMedia f arch tree timestamp = Inr False) \<and>
   (verifyMedia f arch tree (Some ts) = Inr True \<longleftrightarrow>
      (\<exists>s. f (tree @ ''/.discinfo'') = Text s \<and>
           strip (marker_line 0 s) = ts \<and> strip (marker_line 2 s) = arch)) \<and>
   (verifyMedia f arch tree None = Inr True \<longleftrightarrow>
      (\<exists>s. f (tree @ ''/.discinfo'') = Text s \<and> strip (marker_line 2 s) = arch)) \<and>
   (f (tree @ ''/.discinfo'') = Fails x \<longrightarrow> verifyMedia f arch tree timestamp = Inl x) \<and>
   ((\<exists>b. verifyMedia f arch tree timestamp = Inr b) \<longleftrightarrow>
      (\<forall>x. f (tree @ ''/.discinfo'') \<noteq> Fails x))"
proof (cases "f (tree @ ''/.discinfo'')")
  case NoAccess
  then show ?thesis by (auto simp: verifyMedia_def)
next
  case (Fails y)
  then show ?thesis by (auto simp: verifyMedia_def)
next
  case (Text s)
  then show ?thesis using verifyMedia_text [of f tree s arch] by auto
qed

theorem verifyMedia_spec_witness:
  "verifyMedia media_files (ascii ''x86_64'') ''/mnt'' (Some (ascii ''1539194970.388895''))
     = Inr True \<and>
   verifyMedia media_files (ascii ''x86_64'') ''/mnt'' None = Inr True \<and>
   verifyMedia media_files (ascii ''x86_64'') ''/nbsp'' None = Inr True \<and>
   verifyMedia media_files (ascii ''x86_64'') ''/elsewhere'' None = Inr False \<and>
   verifyMedia media_files (ascii ''x86_64'') ''/dir'' None = Inl IsADirectoryError"
proof -
  have t: "media_files (''/mnt'' @ ''/.discinfo'') = Text fedora_marker"
    and u: "media_files (''/nbsp'' @ ''/.discinfo'') = Text nbsp_marker"
    and n: "media_files (''/elsewhere'' @ ''/.discinfo'') = NoAccess"
    and d: "media_files (''/dir'' @ ''/.discinfo'') = Fails IsADirectoryError"
    by (simp_all add: media_files_def)
  have l0: "strip (marker_line 0 fedora_marker) = ascii ''1539194970.388895''"
    and l2: "strip (marker_line 2 fedora_marker) = ascii ''x86_64''"
    and l3: "strip (marker_line 2 nbsp_marker) = ascii ''x86_64''"
    by (simp_all add: fedora_marker_def nbsp_marker_def marker_line_def strip_def isspace_def
        NL_def ascii_def)
  show ?thesis
    using verifyMedia_spec [where f = media_files and tree = "''/mnt''"
            and arch = "ascii ''x86_64''" and timestamp = None
            and ts = "ascii ''1539194970.388895''"]
          verifyMedia_spec [where f = media_files and tree = "''/nbsp''"
            and arch = "ascii ''x86_64''" and timestamp = None]
          verifyMedia_spec [where f = media_files and tree = "''/elsewhere''"
            and arch = "ascii ''x86_64''" and timestamp = None]
          verifyMedia_spec [where f = media_files and tree = "''/dir''"
            and arch = "ascii ''x86_64''" and timestamp = None and x = IsADirectoryError]
          t u n d l0 l2 l3
    by blast
qed

section \<open>Properties of ConfigureTimezoneTask\<close>

lemmas tz_defs = ConfigureTimezoneTask_run_def correct_timezone_def is_valid_request_def host_def host_zones_def
      setup_environment_def logged_def tz_logmsg_def fallback_zone_def Let_def

text \<open>
  The model does what the unit tests of the repository ask of the task.
\<close>

lemma timezone_tests_pass:
  "test_timezone_task_timezone_missing \<and> test_timezone_task_symlink_failure \<and>
   test_timezone_task_write_adjtime_failure \<and> test_timezone_task_correction"
  by (simp add: test_timezone_task_timezone_missing_def test_timezone_task_symlink_failure_def
      test_timezone_task_write_adjtime_failure_def test_timezone_task_correction_def
      test_timezone_inputs_def tz_defs)

text \<open>
  C2 (corrected). The claim: when the link cannot be made the task raises a timezone
  configuration failure. \<^verbatim>\<open>test_timezone_task_symlink_failure\<close> runs the task with
  \<^verbatim>\<open>os.symlink\<close> raising, outside any \<^verbatim>\<open>pytest.raises\<close>: the task returns, an error
  is logged and there is no \<^verbatim>\<open>/etc/localtime\<close>.
\<close>

theorem ConfigureTimezoneTask_symlink_failure_not_raised:
  "symlink_raises (host\<lparr>symlink_raises := True\<rparr>) \<and>
   ConfigureTimezoneTask_run (host\<lparr>symlink_raises := True\<rparr>) (Some ''Asia/Ulaanbaatar'') False
       (setup_environment False True)
     = (Inr (), (setup_environment False True)
          \<lparr>adjtime := Some [''LOCAL''],
           tz_log := [(ERROR, ''error when symlinking timezone'')]\<rparr>)"
  by (simp add: tz_defs)

text \<open>
  C2 as amended: when the link cannot be made (the zone file of the resolved zone is not
  under the sysroot, or \<^verbatim>\<open>os.symlink\<close> raises), the task logs an error, leaves no
  \<^verbatim>\<open>/etc/localtime\<close> and goes on; it raises TimezoneConfigurationError only when, off
  s390, the write of \<^verbatim>\<open>/etc/adjtime\<close> fails.
\<close>

theorem ConfigureTimezoneTask_link_failure:
  assumes "\<not> zoneinfo s (correct_timezone env timezone) \<or> symlink_raises env"
  shows "localtime (snd (ConfigureTimezoneTask_run env timezone is_utc s)) = None \<and>
         logged ERROR (tz_log (snd (ConfigureTimezoneTask_run env timezone is_utc s))) \<and>
         fst (ConfigureTimezoneTask_run env timezone is_utc s) =
           (if \<not> is_s390 env \<and> open_raises env then Inl TimezoneConfigurationError else Inr ())"
  using assms
  by (auto simp: ConfigureTimezoneTask_run_def logged_def tz_logmsg_def Let_def)

theorem ConfigureTimezoneTask_link_failure_witness:
  "localtime (snd (ConfigureTimezoneTask_run (host\<lparr>symlink_raises := True\<rparr>)
                     (Some ''Asia/Ulaanbaatar'') False (setup_environment False True))) = None \<and>
   logged ERROR (tz_log (snd (ConfigureTimezoneTask_run (host\<lparr>symlink_raises := True\<rparr>)
                     (Some ''Asia/Ulaanbaatar'') False (setup_environment False True)))) \<and>
   fst (ConfigureTimezoneTask_run (host\<lparr>symlink_raises := True\<rparr>)
          (Some ''Asia/Ulaanbaatar'') False (setup_environment False True)) = Inr () \<and>
   fst (ConfigureTimezoneTask_run (host\<lparr>open_raises := True\<rparr>)
          (Some ''Asia/Ulaanbaatar'') False ulaanbaatar_removed) = Inl TimezoneConfigurationError"
proof -
  have a: "\<not> zoneinfo (setup_environment False True)
               (correct_timezone (host\<lparr>symlink_raises := True\<rparr>) (Some ''Asia/Ulaanbaatar''))
           \<or> symlink_raises (host\<lparr>symlink_raises := True\<rparr>)"
    by simp
  have b: "\<not> zoneinfo ulaanbaatar_removed
               (correct_timezone (host\<lparr>open_raises := True\<rparr>) (Some ''Asia/Ulaanbaatar''))
           \<or> symlink_raises (host\<lparr>open_raises := True\<rparr>)"
    by (simp add: ulaanbaatar_removed_def correct_timezone_def host_def host_zones_def)
  show ?thesis
    using ConfigureTimezoneTask_link_failure [OF a, of False]
          ConfigureTimezoneTask_link_failure [OF b, of False]
    by (simp add: host_def)
qed

text \<open>
  C9 (corrected). The claim: every identifier with no zone file under the sysroot is
  replaced by America/New_York and \<^verbatim>\<open>/etc/localtime\<close> becomes the link to it.
  \<^verbatim>\<open>test_timezone_task_timezone_missing\<close> asks for a time zone whose file was removed
  from the sysroot (the fallback's file is there): no link is made.
\<close>

theorem ConfigureTimezoneTask_missing_zone_not_corrected:
  "\<not> zoneinfo ulaanbaatar_removed ''Asia/Ulaanbaatar'' \<and>
   zoneinfo ulaanbaatar_removed ''America/New_York'' \<and>
   localtime (snd (ConfigureTimezoneTask_run host (Some ''Asia/Ulaanbaatar'') False
                     ulaanbaatar_removed)) = None"
  by (simp add: ulaanbaatar_removed_def tz_defs)

text \<open>
  C9 as amended: every request that is not a time zone identifier (the empty string and
  an absent value among them) is replaced by America/New_York with a warning, and
  where that zone's file is under the sysroot and \<^verbatim>\<open>os.symlink\<close> does not fail,
  \<^verbatim>\<open>/etc/localtime\<close> becomes the relative link
  \<^verbatim>\<open>../usr/share/zoneinfo/America/New_York\<close>.
\<close>

theorem ConfigureTimezoneTask_correction:
  assumes "\<not> is_valid_request env timezone"
    and "zoneinfo s ''America/New_York''" and "\<not> symlink_raises env"
  shows "correct_timezone env timezone = ''America/New_York'' \<and>
         localtime (snd (ConfigureTimezoneTask_run env timezone is_utc s))
           = Some (Symlink ''../usr/share/zoneinfo/America/New_York'') \<and>
         logged WARNING (tz_log (snd (ConfigureTimezoneTask_run env timezone is_utc s)))"
  using assms
  by (auto simp: ConfigureTimezoneTask_run_def correct_timezone_def is_valid_request_def
      fallback_zone_def logged_def tz_logmsg_def Let_def split: option.splits)

theorem ConfigureTimezoneTask_correction_witness:
  "localtime (snd (ConfigureTimezoneTask_run host (Some ''BahBlah'') True
                     (setup_environment True True)))
     = Some (Symlink ''../usr/share/zoneinfo/America/New_York'') \<and>
   localtime (snd (ConfigureTimezoneTask_run host (Some []) True (setup_environment True True)))
     = Some (Symlink ''../usr/share/zoneinfo/America/New_York'') \<and>
   localtime (snd (ConfigureTimezoneTask_run host None True (setup_environment True True)))
     = Some (Symlink ''../usr/share/zoneinfo/America/New_York'')"
proof -
  have z: "zoneinfo (setup_environment True True) ''America/New_York''"
    and y: "\<not> symlink_raises host"
    and a: "\<not> is_valid_request host (Some ''BahBlah'')"
    and b: "\<not> is_valid_request host (Some [])"
    and c: "\<not> is_valid_request host None"
    by (simp_all add: setup_environment_def host_def host_zones_def is_valid_request_def)
  show ?thesis
    using ConfigureTimezoneTask_correction [OF a z y, of True]
          ConfigureTimezoneTask_correction [OF b z y, of True]
          ConfigureTimezoneTask_correction [OF c z y, of True]
    by simp
qed

section \<open>Properties of ConfigureNTPTask\<close>

lemmas ntp_defs = ConfigureNTPTask_run_def call_util_def NTP_SERVICE_def Let_def

lemma ntp_config_lines:
  "chrony_conf (snd (ConfigureNTPTask_run (chronyd_installed None) ''/mnt/sysroot'' True
                       test_sources ntp_init))
     = Some [''server unique.ntp.server iburst'', ''pool another.unique.server'']"
  by (simp add: ntp_defs chronyd_installed_def test_sources_def render_source_def space_join_def
      ntp_init_def)

text \<open>
  C6. ConfigureNTPTask.run asks first whether chronyd is installed in the sysroot; not
  installed, it calls neither enable nor disable, whatever \<^verbatim>\<open>ntp_enabled\<close> is;
  installed, it calls exactly one of them, enable when \<^verbatim>\<open>ntp_enabled\<close> is true and
  disable when it is false. The calls pass \<^verbatim>\<open>_validate_ntp_service\<close>.
\<close>

theorem ConfigureNTPTask_service:
  "util_calls (snd (ConfigureNTPTask_run env root ntp_enabled ntp_servers st)) =
     util_calls st @ Is_service_installed ''chronyd'' root #
       (if is_service_installed env ''chronyd'' root
        then [if ntp_enabled then Enable_service ''chronyd'' root
              else Disable_service ''chronyd'' root]
        else []) \<and>
   validate_ntp_service root
     (util_calls (snd (ConfigureNTPTask_run env root ntp_enabled ntp_servers ntp_init)))
     (is_service_installed env ''chronyd'' root) ntp_enabled"
  by (simp add: ntp_defs validate_ntp_service_def ntp_init_def split: option.splits)

theorem ConfigureNTPTask_service_witness:
  "util_calls (snd (ConfigureNTPTask_run (chronyd_installed None) ''/mnt/sysroot'' True
                      test_sources ntp_init))
     = [Is_service_installed ''chronyd'' ''/mnt/sysroot'', Enable_service ''chronyd'' ''/mnt/sysroot''] \<and>
   util_calls (snd (ConfigureNTPTask_run (chronyd_installed None) ''/mnt/sysroot'' False
                      test_sources ntp_init))
     = [Is_service_installed ''chronyd'' ''/mnt/sysroot'', Disable_service ''chronyd'' ''/mnt/sysroot'']"
  using ConfigureNTPTask_service [of "chronyd_installed None" "''/mnt/sysroot''" True test_sources ntp_init]
        ConfigureNTPTask_service [of "chronyd_installed None" "''/mnt/sysroot''" False test_sources ntp_init]
  by (simp add: chronyd_installed_def ntp_init_def)

text \<open>
  C8. ConfigureNTPTask.run always returns normally; when saving the configuration
  fails, a warning is logged and the configuration file is left as it was.
\<close>

theorem ConfigureNTPTask_save_failure:
  "fst (ConfigureNTPTask_run env root ntp_enabled ntp_servers st) = Inr () \<and>
   (save_raises env = Some x \<and> ntp_enabled \<and> ntp_servers \<noteq> [] \<longrightarrow>
      ntp_log (snd (ConfigureNTPTask_run env root ntp_enabled ntp_servers st))
        = ntp_log st @ [(WARNING, ''failed to save NTP configuration'')] \<and>
      chrony_conf (snd (ConfigureNTPTask_run env root ntp_enabled ntp_servers st))
        = chrony_conf st)"
  by (simp add: ntp_defs)

theorem ConfigureNTPTask_save_failure_witness:
  "fst (ConfigureNTPTask_run (chronyd_installed (Some NTPconfigError)) ''/mnt/sysroot'' True
          test_sources ntp_init) = Inr () \<and>
   ntp_log (snd (ConfigureNTPTask_run (chronyd_installed (Some NTPconfigError)) ''/mnt/sysroot''
                   True test_sources ntp_init))
     = [(WARNING, ''failed to save NTP configuration'')] \<and>
   chrony_conf (snd (ConfigureNTPTask_run (chronyd_installed (Some NTPconfigError))
                       ''/mnt/sysroot'' True test_sources ntp_init)) = None"
proof -
  have a: "save_raises (chronyd_installed (Some NTPconfigError)) = Some NTPconfigError"
    and b: "test_sources \<noteq> []"
    by (simp_all add: chronyd_installed_def test_sources_def)
  show ?thesis
    using ConfigureNTPTask_save_failure [of "chronyd_installed (Some NTPconfigError)"
        "''/mnt/sysroot''" True test_sources ntp_init NTPconfigError] a b
    by (simp add: ntp_init_def)
qed

end
